theory Spec2Isabelle
  imports Complex_Main
begin

section \<open>JavaScript values read by the server\<close>

text \<open>
  The server (\<^verbatim>\<open>src/server.js\<close>) reads every inbound frame with \<^verbatim>\<open>JSON.parse\<close> and
  then only inspects the result through property reads, \<^verbatim>\<open>===\<close>, \<^verbatim>\<open>||\<close> and
  truthiness tests. A parsed frame is therefore a value of \<open>jsval\<close>; \<open>Undefined\<close> is
  what a read of a missing property gives. Numbers are reals: the server never computes
  with them, it tests them for zero and passes them on.
\<close>

datatype jsval =
    Undefined
  | Null
  | Bool bool
  | Num real
  | Str string
  | Arr "jsval list"
  | Obj "(string \<times> jsval) list"

datatype js_error = SyntaxError | TypeError

text \<open>Truthiness, as used by \<^verbatim>\<open>||\<close>, \<^verbatim>\<open>&&\<close> and \<^verbatim>\<open>if\<close>.\<close>

fun truthy :: "jsval \<Rightarrow> bool" where
  "truthy Undefined = False"
| "truthy Null = False"
| "truthy (Bool b) = b"
| "truthy (Num n) = (n \<noteq> 0)"
| "truthy (Str s) = (s \<noteq> [])"
| "truthy (Arr vs) = True"
| "truthy (Obj kvs) = True"

text \<open>\<^verbatim>\<open>a || b\<close>\<close>

definition js_or :: "jsval \<Rightarrow> jsval \<Rightarrow> jsval" where
  "js_or a b = (if truthy a then a else b)"

text \<open>
  \<^verbatim>\<open>v.k\<close>, and one field of the destructuring \<^verbatim>\<open>const { type, data } = v\<close>: a
  TypeError on \<^verbatim>\<open>undefined\<close> and \<^verbatim>\<open>null\<close>, the own property of an object, and
  \<^verbatim>\<open>undefined\<close> otherwise. The handler reads the names \<^verbatim>\<open>type\<close>, \<^verbatim>\<open>data\<close>,
  \<^verbatim>\<open>x\<close>, \<^verbatim>\<open>y\<close>, \<^verbatim>\<open>color\<close>, \<^verbatim>\<open>width\<close>, \<^verbatim>\<open>strokeId\<close>, \<^verbatim>\<open>message\<close>,
  \<^verbatim>\<open>timestamp\<close> and \<^verbatim>\<open>typing\<close>, none of which a prototype of a string, number,
  boolean, array or plain object defines.
\<close>

fun get_prop :: "jsval \<Rightarrow> string \<Rightarrow> js_error + jsval" where
  "get_prop Undefined k = Inl TypeError"
| "get_prop Null k = Inl TypeError"
| "get_prop (Obj kvs) k = Inr (case map_of kvs k of None \<Rightarrow> Undefined | Some v \<Rightarrow> v)"
| "get_prop v k = Inr Undefined"

text \<open>Sequencing of steps that may throw: the first error ends the evaluation.\<close>

definition and_then :: "'e + 'a \<Rightarrow> ('a \<Rightarrow> 'e + 'b) \<Rightarrow> 'e + 'b" where
  "and_then m f = (case m of Inl e \<Rightarrow> Inl e | Inr v \<Rightarrow> f v)"

section \<open>JavaScript \<^verbatim>\<open>Map\<close>\<close>

text \<open>
  A \<^verbatim>\<open>Map\<close> keeps its entries in insertion order (\<^verbatim>\<open>values()\<close> lists them so), and
  \<^verbatim>\<open>set\<close> on a present key replaces the value where the entry already stands.
\<close>

type_synonym ('k, 'v) js_map = "('k \<times> 'v) list"

definition map_get :: "('k, 'v) js_map \<Rightarrow> 'k \<Rightarrow> 'v option" where
  "map_get m k = map_of m k"

fun map_set :: "('k, 'v) js_map \<Rightarrow> 'k \<Rightarrow> 'v \<Rightarrow> ('k, 'v) js_map" where
  "map_set [] k v = [(k, v)]"
| "map_set ((k', v') # m) k v = (if k' = k then (k, v) # m else (k', v') # map_set m k v)"

definition map_delete :: "('k, 'v) js_map \<Rightarrow> 'k \<Rightarrow> ('k, 'v) js_map" where
  "map_delete m k = filter (\<lambda>e. fst e \<noteq> k) m"

definition map_values :: "('k, 'v) js_map \<Rightarrow> 'v list" where
  "map_values m = map snd m"

definition map_keys :: "('k, 'v) js_map \<Rightarrow> 'k list" where
  "map_keys m = map fst m"

section \<open>Server state\<close>

record point =
  pt_x :: jsval
  pt_y :: jsval

text \<open>
  A stroke object of \<^verbatim>\<open>canvasState.strokes\<close>. \<open>stroke_userId\<close> is
  \<^verbatim>\<open>connectedClients.get(ws)\<close> at creation: \<open>None\<close> is \<^verbatim>\<open>undefined\<close>.
\<close>

record stroke =
  stroke_id :: string
  stroke_userId :: "string option"
  stroke_color :: jsval
  stroke_width :: jsval
  stroke_points :: "point list"
  stroke_timestamp :: real

record user_info =
  user_id :: string
  user_socketId :: string
  user_color :: jsval
  user_cursor :: point

text \<open>A socket object \<^verbatim>\<open>ws\<close> is identified by a number.\<close>

type_synonym ws = nat

datatype ready_state = CONNECTING | OPEN | CLOSING | CLOSED

text \<open>
  What the \<^verbatim>\<open>ws\<close> library holds when a handler runs: the set \<^verbatim>\<open>wss.clients\<close> in
  insertion order and each socket's \<^verbatim>\<open>readyState\<close>. The handlers only read it.
\<close>

record net =
  wss_clients :: "ws list"
  readyState :: "ws \<Rightarrow> ready_state"

text \<open>
  \<^verbatim>\<open>canvasState.strokes\<close>, \<^verbatim>\<open>canvasState.users\<close> and the module-level
  \<^verbatim>\<open>connectedClients\<close>.
\<close>

record server_state =
  strokes :: "stroke list"
  users :: "(string, user_info) js_map"
  connectedClients :: "(ws, string) js_map"

definition initial_state :: server_state where
  "initial_state = \<lparr>strokes = [], users = [], connectedClients = []\<rparr>"

text \<open>The messages the server sends, before \<^verbatim>\<open>JSON.stringify\<close>.\<close>

datatype out_msg =
    CanvasState "stroke list" "user_info list"
  | UserInfo user_info
  | UserJoined user_info
  | UserLeft string
  | DrawStart stroke
  | DrawContinue jsval jsval jsval
  | DrawEnd jsval
  | CursorMove "string option" jsval jsval jsval
  | ClearCanvas
  | ChatMessage string "string option" jsval string jsval
  | UserTyping "string option" jsval

type_synonym send = "ws \<times> out_msg"

datatype log_entry =
    UserConnected string
  | UserDisconnected string
  | ChatLog "string option" jsval
  | UnknownMessageType jsval
  | ErrorParsing js_error

text \<open>What one handler run leaves behind: the state, the frames sent, the console lines.\<close>

type_synonym outcome = "server_state \<times> send list \<times> log_entry list"

section \<open>Sending\<close>

text \<open>\<^verbatim>\<open>broadcast(message, excludeWs = null)\<close>\<close>

definition broadcast :: "net \<Rightarrow> out_msg \<Rightarrow> ws option \<Rightarrow> send list" where
  "broadcast n message excludeWs =
     map (\<lambda>client. (client, message))
       (filter (\<lambda>client. Some client \<noteq> excludeWs \<and> readyState n client = OPEN) (wss_clients n))"

text \<open>\<^verbatim>\<open>sendToClient(ws, message)\<close>\<close>

definition sendToClient :: "net \<Rightarrow> ws \<Rightarrow> out_msg \<Rightarrow> send list" where
  "sendToClient n w message = (if readyState n w = OPEN then [(w, message)] else [])"

text \<open>The sockets that the inline loops \<^verbatim>\<open>wss.clients.forEach\<close> of the handler send to.\<close>

definition open_clients :: "net \<Rightarrow> ws list" where
  "open_clients n = filter (\<lambda>client. readyState n client = OPEN) (wss_clients n)"

definition send_all :: "net \<Rightarrow> out_msg \<Rightarrow> send list" where
  "send_all n message = map (\<lambda>client. (client, message)) (open_clients n)"

section \<open>The message handler of a connection\<close>

text \<open>
  What the environment supplies to one run of the handler: the value that
  \<^verbatim>\<open>uuidv4()\<close> returns if the run calls it (each branch calls it at most once), and
  \<^verbatim>\<open>Date.now()\<close>.
\<close>

record env =
  uuidv4 :: string
  date_now :: real

text \<open>
  \<^verbatim>\<open>case 'draw-start'\<close>. \<open>userColor\<close> is the colour drawn when the connection was
  accepted, captured by the handler's closure.
\<close>

definition draw_start ::
  "net \<Rightarrow> env \<Rightarrow> jsval \<Rightarrow> string option \<Rightarrow> jsval \<Rightarrow> server_state \<Rightarrow> js_error + outcome" where
  "draw_start n e userColor userId data st =
     and_then (get_prop data ''color'') (\<lambda>color.
     and_then (get_prop data ''width'') (\<lambda>width.
     and_then (get_prop data ''x'') (\<lambda>x.
     and_then (get_prop data ''y'') (\<lambda>y.
       let stroke = \<lparr>stroke_id = uuidv4 e, stroke_userId = userId,
                      stroke_color = js_or color userColor,
                      stroke_width = js_or width (Num 2),
                      stroke_points = [\<lparr>pt_x = x, pt_y = y\<rparr>],
                      stroke_timestamp = date_now e\<rparr>
       in Inr (st\<lparr>strokes := strokes st @ [stroke]\<rparr>, send_all n (DrawStart stroke), [])))))"

text \<open>
  \<^verbatim>\<open>canvasState.strokes.find(stroke => stroke.userId === userId && stroke.id === data.strokeId)\<close>,
  giving the position of the object found. \<^verbatim>\<open>&&\<close> reads \<^verbatim>\<open>data.strokeId\<close> only for a
  stroke of this user, so a missing \<^verbatim>\<open>data\<close> throws only then.
\<close>

fun find_stroke :: "string option \<Rightarrow> jsval \<Rightarrow> stroke list \<Rightarrow> js_error + nat option" where
  "find_stroke userId data [] = Inr None"
| "find_stroke userId data (s # ss) =
     (if stroke_userId s = userId then
        (case get_prop data ''strokeId'' of
           Inl err \<Rightarrow> Inl err
         | Inr strokeId \<Rightarrow>
             if Str (stroke_id s) = strokeId then Inr (Some 0)
             else (case find_stroke userId data ss of
                     Inl err \<Rightarrow> Inl err
                   | Inr r \<Rightarrow> Inr (map_option Suc r)))
      else (case find_stroke userId data ss of
              Inl err \<Rightarrow> Inl err
            | Inr r \<Rightarrow> Inr (map_option Suc r)))"

text \<open>\<^verbatim>\<open>currentStroke.points.push(p)\<close> on the object at position \<open>i\<close>.\<close>

definition push_point :: "nat \<Rightarrow> point \<Rightarrow> stroke list \<Rightarrow> stroke list" where
  "push_point i p ss = ss[i := (ss ! i)\<lparr>stroke_points := stroke_points (ss ! i) @ [p]\<rparr>]"

text \<open>
  \<^verbatim>\<open>case 'draw-continue'\<close>. Once \<^verbatim>\<open>find\<close> has returned a stroke, \<^verbatim>\<open>data\<close> has been
  read without error, so no read after the \<^verbatim>\<open>push\<close> can throw.
\<close>

definition draw_continue ::
  "net \<Rightarrow> string option \<Rightarrow> jsval \<Rightarrow> server_state \<Rightarrow> js_error + outcome" where
  "draw_continue n userId data st =
     and_then (find_stroke userId data (strokes st)) (\<lambda>currentStroke.
       case currentStroke of
         None \<Rightarrow> Inr (st, [], [])
       | Some i \<Rightarrow>
           and_then (get_prop data ''x'') (\<lambda>x.
           and_then (get_prop data ''y'') (\<lambda>y.
           and_then (get_prop data ''strokeId'') (\<lambda>strokeId.
             Inr (st\<lparr>strokes := push_point i \<lparr>pt_x = x, pt_y = y\<rparr> (strokes st)\<rparr>,
                  send_all n (DrawContinue strokeId x y), [])))))"

text \<open>
  \<^verbatim>\<open>case 'draw-end'\<close>: \<^verbatim>\<open>data.strokeId\<close> is read inside the loop, for the first open
  client, before anything is sent.
\<close>

definition draw_end :: "net \<Rightarrow> jsval \<Rightarrow> server_state \<Rightarrow> js_error + outcome" where
  "draw_end n data st =
     (if open_clients n = [] then Inr (st, [], [])
      else and_then (get_prop data ''strokeId'') (\<lambda>strokeId.
             Inr (st, send_all n (DrawEnd strokeId), [])))"

text \<open>
  \<^verbatim>\<open>case 'cursor-move'\<close>. \<^verbatim>\<open>canvasState.users.get(userId)\<close> finds nothing when
  \<^verbatim>\<open>userId\<close> is \<^verbatim>\<open>undefined\<close>, the keys being strings. The assignment
  \<^verbatim>\<open>cursorUser.cursor = ...\<close> changes the object that the map holds under \<^verbatim>\<open>userId\<close>.
\<close>

definition cursor_move ::
  "net \<Rightarrow> ws \<Rightarrow> string option \<Rightarrow> jsval \<Rightarrow> server_state \<Rightarrow> js_error + outcome" where
  "cursor_move n w userId data st =
     (case userId of
        None \<Rightarrow> Inr (st, [], [])
      | Some u \<Rightarrow>
          (case map_get (users st) u of
             None \<Rightarrow> Inr (st, [], [])
           | Some cursorUser \<Rightarrow>
               and_then (get_prop data ''x'') (\<lambda>x.
               and_then (get_prop data ''y'') (\<lambda>y.
                 Inr (st\<lparr>users := map_set (users st) u
                                    (cursorUser\<lparr>user_cursor := \<lparr>pt_x = x, pt_y = y\<rparr>\<rparr>)\<rparr>,
                      broadcast n (CursorMove userId x y (user_color cursorUser)) (Some w),
                      [])))))"

text \<open>\<^verbatim>\<open>case 'clear-canvas'\<close>\<close>

definition clear_canvas :: "net \<Rightarrow> server_state \<Rightarrow> js_error + outcome" where
  "clear_canvas n st = Inr (st\<lparr>strokes := []\<rparr>, send_all n ClearCanvas, [])"

text \<open>
  \<^verbatim>\<open>String.prototype.trim\<close> on the ASCII white space and line terminators (tab, LF, VT,
  FF, CR, space); strings are byte strings here, and the white space beyond ASCII that the
  platform also strips (U+00A0, U+FEFF, U+2028, U+2029, the class Zs) is left in place. Only
  the chat branch trims, and it changes no state.
\<close>

definition is_space :: "char \<Rightarrow> bool" where
  "is_space c = (of_char c \<in> {9, 10, 11, 12, 13, 32 :: nat})"

definition trim :: "string \<Rightarrow> string" where
  "trim s = rev (dropWhile is_space (rev (dropWhile is_space s)))"

text \<open>
  \<^verbatim>\<open>case 'chat-message'\<close>. \<^verbatim>\<open>data.message.trim()\<close> on a truthy value that is not a
  string is a call of \<^verbatim>\<open>undefined\<close>: a TypeError.
\<close>

definition chat_message ::
  "net \<Rightarrow> env \<Rightarrow> string option \<Rightarrow> jsval \<Rightarrow> server_state \<Rightarrow> js_error + outcome" where
  "chat_message n e userId data st =
     (case (case userId of None \<Rightarrow> None | Some u \<Rightarrow> map_get (users st) u) of
        None \<Rightarrow> Inr (st, [], [])
      | Some chatUser \<Rightarrow>
          and_then (get_prop data ''message'') (\<lambda>message.
            if \<not> truthy message then Inr (st, [], [])
            else (case message of
                    Str s \<Rightarrow>
                      if trim s = [] then Inr (st, [], [])
                      else and_then (get_prop data ''timestamp'') (\<lambda>timestamp.
                             Inr (st,
                                  broadcast n
                                    (ChatMessage (uuidv4 e) userId (user_color chatUser) (trim s)
                                       (js_or timestamp (Num (date_now e)))) None,
                                  [ChatLog userId message]))
                  | _ \<Rightarrow> Inl TypeError)))"

text \<open>\<^verbatim>\<open>if (userId)\<close>: a string is truthy when it is not empty.\<close>

definition truthy_id :: "string option \<Rightarrow> bool" where
  "truthy_id userId = (case userId of None \<Rightarrow> False | Some u \<Rightarrow> u \<noteq> [])"

text \<open>\<^verbatim>\<open>case 'user-typing'\<close>\<close>

definition user_typing ::
  "net \<Rightarrow> ws \<Rightarrow> string option \<Rightarrow> jsval \<Rightarrow> server_state \<Rightarrow> js_error + outcome" where
  "user_typing n w userId data st =
     (if truthy_id userId then
        and_then (get_prop data ''typing'') (\<lambda>typing.
          Inr (st, broadcast n (UserTyping userId typing) (Some w), []))
      else Inr (st, [], []))"

text \<open>
  The body of the \<^verbatim>\<open>try\<close> block. \<open>parsed\<close> is what \<^verbatim>\<open>JSON.parse(message)\<close> gives: a
  value, or the error it throws. In every branch each read that can throw comes before
  the first change of state and the first frame sent, so a run that throws has had no
  effect.
\<close>

definition handle ::
  "net \<Rightarrow> env \<Rightarrow> ws \<Rightarrow> jsval \<Rightarrow> js_error + jsval \<Rightarrow> server_state \<Rightarrow> js_error + outcome" where
  "handle n e w userColor parsed st =
     and_then parsed (\<lambda>v.
     and_then (get_prop v ''type'') (\<lambda>type.
     and_then (get_prop v ''data'') (\<lambda>data.
       let userId = map_get (connectedClients st) w in
       if type = Str ''draw-start'' then draw_start n e userColor userId data st
       else if type = Str ''draw-continue'' then draw_continue n userId data st
       else if type = Str ''draw-end'' then draw_end n data st
       else if type = Str ''cursor-move'' then cursor_move n w userId data st
       else if type = Str ''clear-canvas'' then clear_canvas n st
       else if type = Str ''chat-message'' then chat_message n e userId data st
       else if type = Str ''user-typing'' then user_typing n w userId data st
       else Inr (st, [], [UnknownMessageType type]))))"

text \<open>\<^verbatim>\<open>ws.on('message', ...)\<close>: the \<^verbatim>\<open>catch\<close> logs whatever the body throws.\<close>

definition on_message ::
  "net \<Rightarrow> env \<Rightarrow> ws \<Rightarrow> jsval \<Rightarrow> js_error + jsval \<Rightarrow> server_state \<Rightarrow> outcome" where
  "on_message n e w userColor parsed st =
     (case handle n e w userColor parsed st of
        Inl err \<Rightarrow> (st, [], [ErrorParsing err])
      | Inr r \<Rightarrow> r)"

section \<open>Connection and disconnection\<close>

definition colors :: "string list" where
  "colors = [''#FF6B6B'', ''#4ECDC4'', ''#45B7D1'', ''#96CEB4'', ''#FFEAA7'',
             ''#DDA0DD'', ''#98D8C8'', ''#F7DC6F'', ''#BB8FCE'', ''#85C1E9'']"

text \<open>
  \<^verbatim>\<open>generateUserColor()\<close>, with the value of \<^verbatim>\<open>Math.random()\<close> as argument; an index
  outside the array reads \<^verbatim>\<open>undefined\<close>. The product is the exact one, where the code
  rounds it to a double before \<^verbatim>\<open>Math.floor\<close>; the two can pick neighbouring colours.
\<close>

definition generateUserColor :: "real \<Rightarrow> jsval" where
  "generateUserColor random =
     (let i = \<lfloor>random * real (length colors)\<rfloor>
      in if 0 \<le> i \<and> i < int (length colors) then Str (colors ! nat i) else Undefined)"

text \<open>
  \<^verbatim>\<open>wss.on('connection', ...)\<close> up to the registration of the handlers;
  \<open>connectionId\<close> and \<open>userId\<close> are the two \<^verbatim>\<open>uuidv4()\<close> results.
\<close>

definition on_connection ::
  "net \<Rightarrow> ws \<Rightarrow> string \<Rightarrow> string \<Rightarrow> real \<Rightarrow> server_state \<Rightarrow> outcome" where
  "on_connection n w connectionId userId random st =
     (let userColor = generateUserColor random;
          userInfo = \<lparr>user_id = userId, user_socketId = connectionId, user_color = userColor,
                      user_cursor = \<lparr>pt_x = Num 0, pt_y = Num 0\<rparr>\<rparr>;
          st' = st\<lparr>users := map_set (users st) userId userInfo,
                   connectedClients := map_set (connectedClients st) w userId\<rparr>
      in (st',
          sendToClient n w (CanvasState (strokes st') (map_values (users st')))
          @ sendToClient n w (UserInfo userInfo)
          @ broadcast n (UserJoined userInfo) (Some w),
          [UserConnected connectionId]))"

text \<open>\<^verbatim>\<open>ws.on('close', ...)\<close>; \<^verbatim>\<open>if (userId)\<close> fails on \<^verbatim>\<open>undefined\<close> and on the empty string.\<close>

definition on_close :: "net \<Rightarrow> ws \<Rightarrow> string \<Rightarrow> server_state \<Rightarrow> outcome" where
  "on_close n w connectionId st =
     (case map_get (connectedClients st) w of
        None \<Rightarrow> (st, [], [UserDisconnected connectionId])
      | Some userId \<Rightarrow>
          if userId \<noteq> [] then
            (st\<lparr>users := map_delete (users st) userId,
                connectedClients := map_delete (connectedClients st) w\<rparr>,
             broadcast n (UserLeft userId) None,
             [UserDisconnected connectionId])
          else (st, [], [UserDisconnected connectionId]))"

section \<open>Runs of the server\<close>

text \<open>
  The server handles one event at a time. An event carries what its handler's closure
  and the environment hold when it runs.
\<close>

datatype event =
    Connection net ws string string real
  | Message net env ws jsval "js_error + jsval"
  | Close net ws string

fun step :: "event \<Rightarrow> server_state \<Rightarrow> outcome" where
  "step (Connection n w connectionId userId random) st = on_connection n w connectionId userId random st"
| "step (Message n e w userColor parsed) st = on_message n e w userColor parsed st"
| "step (Close n w connectionId) st = on_close n w connectionId st"

fun run :: "event list \<Rightarrow> server_state \<Rightarrow> server_state" where
  "run [] st = st"
| "run (ev # evs) st = run evs (fst (step ev st))"

section \<open>The client: mirror and reconnection\<close>

text \<open>
  The fields of \<^verbatim>\<open>CollaborativeCanvas\<close> (\<^verbatim>\<open>src/public/canvas.js\<close>) that the
  reconnection logic and the snapshot handler use, and the page element
  \<^verbatim>\<open>document.getElementById('connection-error')\<close>, which a page may lack.
\<close>

record element =
  style_display :: string
  textContent :: string

record client =
  reconnectAttempts :: nat
  maxReconnectAttempts :: nat
  reconnectDelay :: nat
  canvasStrokes :: "stroke list"
  connectedUsers :: "(string, user_info) js_map"
  connection_error :: "element option"

text \<open>The constructor's values, on a page whose error element is \<open>el\<close>.\<close>

definition new_client :: "element option \<Rightarrow> client" where
  "new_client el =
     \<lparr>reconnectAttempts = 0, maxReconnectAttempts = 10, reconnectDelay = 1000,
      canvasStrokes = [], connectedUsers = [], connection_error = el\<rparr>"

text \<open>What a client handler asks of its surroundings: a timer, or a status line.\<close>

datatype client_effect =
    SetTimeout_connectWebSocket nat
  | UpdateConnectionStatus bool

text \<open>\<^verbatim>\<open>showConnectionError()\<close>\<close>

definition showConnectionError :: "client \<Rightarrow> client" where
  "showConnectionError c =
     (case connection_error c of
        None \<Rightarrow> c
      | Some errorElement \<Rightarrow>
          c\<lparr>connection_error :=
              Some (errorElement\<lparr>style_display := ''block'',
                 textContent := ''Unable to connect to server. Please refresh the page.''\<rparr>)\<rparr>)"

text \<open>\<^verbatim>\<open>attemptReconnect()\<close>; the delay is in milliseconds.\<close>

definition attemptReconnect :: "client \<Rightarrow> client \<times> client_effect list" where
  "attemptReconnect c =
     (if reconnectAttempts c < maxReconnectAttempts c then
        (let c' = c\<lparr>reconnectAttempts := reconnectAttempts c + 1\<rparr>;
             delay = reconnectDelay c' * 2 ^ (reconnectAttempts c' - 1)
         in (c', [SetTimeout_connectWebSocket delay]))
      else (showConnectionError c, []))"

text \<open>\<^verbatim>\<open>socket.onopen\<close> and \<^verbatim>\<open>socket.onclose\<close>\<close>

definition onopen :: "client \<Rightarrow> client \<times> client_effect list" where
  "onopen c = (c\<lparr>reconnectAttempts := 0\<rparr>, [UpdateConnectionStatus True])"

definition onclose :: "client \<Rightarrow> client \<times> client_effect list" where
  "onclose c = (let (c', effs) = attemptReconnect c in (c', UpdateConnectionStatus False # effs))"

text \<open>\<open>k\<close> connections lost or failed in a row, each ending in \<^verbatim>\<open>onclose\<close>.\<close>

fun failures :: "nat \<Rightarrow> client \<Rightarrow> client \<times> client_effect list" where
  "failures 0 c = (c, [])"
| "failures (Suc k) c =
     (let (c1, effs1) = failures k c; (c2, effs2) = onclose c1 in (c2, effs1 @ effs2))"

text \<open>
  \<^verbatim>\<open>handleCanvasState(data)\<close> on the snapshot \<^verbatim>\<open>{ strokes, users }\<close>; the redraw and the
  user count are rendering.
\<close>

definition handleCanvasState :: "stroke list \<times> user_info list \<Rightarrow> client \<Rightarrow> client" where
  "handleCanvasState data c =
     c\<lparr>canvasStrokes := fst data,
       connectedUsers := fold (\<lambda>user m. map_set m (user_id user) user) (snd data) []\<rparr>"

section \<open>Vocabulary of the properties\<close>

text \<open>The labels of the handler's \<^verbatim>\<open>switch\<close>.\<close>

definition message_types :: "string list" where
  "message_types = [''draw-start'', ''draw-continue'', ''draw-end'', ''cursor-move'',
                    ''clear-canvas'', ''chat-message'', ''user-typing'']"

text \<open>
  The callback of \<^verbatim>\<open>find\<close> in \<^verbatim>\<open>case 'draw-continue'\<close> returns true on \<open>s\<close>: the
  stroke belongs to the sender and carries the id that the message names.
\<close>

definition is_current_stroke :: "string option \<Rightarrow> jsval \<Rightarrow> stroke \<Rightarrow> bool" where
  "is_current_stroke userId data s =
     (stroke_userId s = userId \<and> get_prop data ''strokeId'' = Inr (Str (stroke_id s)))"

text \<open>The envelope \<^verbatim>\<open>{ type, data }\<close> of a well-formed frame.\<close>

definition envelope :: "string \<Rightarrow> jsval \<Rightarrow> jsval" where
  "envelope type data = Obj [(''type'', Str type), (''data'', data)]"

subsection \<open>A concrete situation: two sessions, one stroke\<close>

definition all_open :: net where
  "all_open = \<lparr>wss_clients = [1, 2], readyState = (\<lambda>client. OPEN)\<rparr>"

definition env0 :: env where
  "env0 = \<lparr>uuidv4 = ''s2'', date_now = 1000\<rparr>"

definition alice :: user_info where
  "alice = \<lparr>user_id = ''u1'', user_socketId = ''c1'', user_color = Str ''#FF6B6B'',
            user_cursor = \<lparr>pt_x = Num 0, pt_y = Num 0\<rparr>\<rparr>"

definition bob :: user_info where
  "bob = \<lparr>user_id = ''u2'', user_socketId = ''c2'', user_color = Str ''#4ECDC4'',
          user_cursor = \<lparr>pt_x = Num 0, pt_y = Num 0\<rparr>\<rparr>"

definition stroke1 :: stroke where
  "stroke1 = \<lparr>stroke_id = ''s1'', stroke_userId = Some ''u1'', stroke_color = Str ''#FF0000'',
              stroke_width = Num 3, stroke_points = [\<lparr>pt_x = Num 10, pt_y = Num 10\<rparr>],
              stroke_timestamp = 999\<rparr>"

definition two_users :: server_state where
  "two_users = \<lparr>strokes = [stroke1], users = [(''u1'', alice), (''u2'', bob)],
                connectedClients = [(1, ''u1''), (2, ''u2'')]\<rparr>"

definition continue_s1 :: jsval where
  "continue_s1 = envelope ''draw-continue''
                   (Obj [(''strokeId'', Str ''s1''), (''x'', Num 11), (''y'', Num 12)])"

definition end_s1 :: jsval where
  "end_s1 = envelope ''draw-end'' (Obj [(''strokeId'', Str ''s1'')])"

definition cursor_at :: jsval where
  "cursor_at = envelope ''cursor-move'' (Obj [(''x'', Num 5), (''y'', Num 6)])"

text \<open>The same state once the first session has gone.\<close>

definition gone :: server_state where
  "gone = \<lparr>strokes = [stroke1], users = [(''u2'', bob)], connectedClients = [(2, ''u2'')]\<rparr>"

definition continue_far :: jsval where
  "continue_far = envelope ''draw-continue''
                    (Obj [(''strokeId'', Str ''s1''), (''x'', Num 20), (''y'', Num 21)])"

definition start_red :: jsval where
  "start_red = envelope ''draw-start''
     (Obj [(''x'', Num 10), (''y'', Num 10), (''color'', Str ''#FF0000''), (''width'', Num 3)])"

definition start_blank :: jsval where
  "start_blank = envelope ''draw-start''
     (Obj [(''x'', Num 10), (''y'', Num 10), (''color'', Str []), (''width'', Num 3)])"

text \<open>The library's view once socket 1 has closed.\<close>

definition socket1_closed :: net where
  "socket1_closed =
     \<lparr>wss_clients = [2], readyState = (\<lambda>client. if client = 1 then CLOSED else OPEN)\<rparr>"

text \<open>
  How the first session came to own stroke \<^verbatim>\<open>s1\<close>: it connected; it began a stroke.
\<close>

definition history :: "event list" where
  "history = [Connection all_open 1 ''c1'' ''u1'' 0,
              Message all_open \<lparr>uuidv4 = ''s1'', date_now = 999\<rparr> 1 (Str ''#FF6B6B'')
                (Inr start_red)]"

text \<open>The error element of a page, before anything has been shown in it.\<close>

definition hidden :: element where
  "hidden = \<lparr>style_display = ''none'', textContent = []\<rparr>"

subsection \<open>Predicates\<close>

text \<open>
  The registry is a map in the proper sense, and each entry stands under its own id, as
  \<^verbatim>\<open>users.set(userId, userInfo)\<close> with \<^verbatim>\<open>userInfo.id = userId\<close> puts it.
\<close>

definition users_ok :: "(string, user_info) js_map \<Rightarrow> bool" where
  "users_ok m = (distinct (map_keys m) \<and> list_all (\<lambda>entry. user_id (snd entry) = fst entry) m)"

text \<open>
  The client after the failure that finds the attempts used up: the counter at the
  maximum, the error shown.
\<close>

definition exhausted :: "element option \<Rightarrow> client" where
  "exhausted el = showConnectionError ((new_client el)\<lparr>reconnectAttempts := 10\<rparr>)"

section \<open>Reading frames\<close>

lemmas example_defs = envelope_def all_open_def env0_def alice_def bob_def stroke1_def
  two_users_def continue_s1_def end_s1_def cursor_at_def gone_def
  continue_far_def start_red_def start_blank_def socket1_closed_def history_def hidden_def

lemma get_prop_total:
  "get_prop v k = Inr a \<Longrightarrow> \<exists>b. get_prop v k' = Inr b"
  by (cases v) auto

text \<open>Once \<^verbatim>\<open>type\<close> and \<^verbatim>\<open>data\<close> are read, the handler is its \<^verbatim>\<open>switch\<close>.\<close>

lemma handle_dispatch:
  assumes "get_prop v ''type'' = Inr t" and "get_prop v ''data'' = Inr d"
  shows "handle n e w userColor (Inr v) st =
     (let userId = map_get (connectedClients st) w in
       if t = Str ''draw-start'' then draw_start n e userColor userId d st
       else if t = Str ''draw-continue'' then draw_continue n userId d st
       else if t = Str ''draw-end'' then draw_end n d st
       else if t = Str ''cursor-move'' then cursor_move n w userId d st
       else if t = Str ''clear-canvas'' then clear_canvas n st
       else if t = Str ''chat-message'' then chat_message n e userId d st
       else if t = Str ''user-typing'' then user_typing n w userId d st
       else Inr (st, [], [UnknownMessageType t]))"
  using assms by (simp add: handle_def and_then_def)

lemma on_message_typed:
  assumes "get_prop v ''type'' = Inr t" and "get_prop v ''data'' = Inr d"
  shows "on_message n e w userColor (Inr v) st =
     (case (let userId = map_get (connectedClients st) w in
       if t = Str ''draw-start'' then draw_start n e userColor userId d st
       else if t = Str ''draw-continue'' then draw_continue n userId d st
       else if t = Str ''draw-end'' then draw_end n d st
       else if t = Str ''cursor-move'' then cursor_move n w userId d st
       else if t = Str ''clear-canvas'' then clear_canvas n st
       else if t = Str ''chat-message'' then chat_message n e userId d st
       else if t = Str ''user-typing'' then user_typing n w userId d st
       else Inr (st, [], [UnknownMessageType t])) of
        Inl err \<Rightarrow> (st, [], [ErrorParsing err]) | Inr r \<Rightarrow> r)"
  by (simp add: on_message_def handle_dispatch [OF assms])

section \<open>Malformed frames\<close>

text \<open>
  Claim C9. A frame that \<^verbatim>\<open>JSON.parse\<close> rejects, a frame whose \<^verbatim>\<open>type\<close> cannot be
  read (\<^verbatim>\<open>null\<close>), and a frame whose \<^verbatim>\<open>type\<close> is none of the seven labels of the
  \<^verbatim>\<open>switch\<close> all end the handler normally: the state is the one before, nothing is
  sent, and one console line records the error or the unknown type.
\<close>

theorem malformed_dropped:
  "on_message n e w userColor (Inl err) st = (st, [], [ErrorParsing err])
   \<and> (get_prop v ''type'' = Inl err \<longrightarrow>
        on_message n e w userColor (Inr v) st = (st, [], [ErrorParsing err]))
   \<and> (get_prop v ''type'' = Inr t \<and> t \<notin> Str ` set message_types \<longrightarrow>
        on_message n e w userColor (Inr v) st = (st, [], [UnknownMessageType t]))"
proof (intro conjI impI)
  show "on_message n e w userColor (Inl err) st = (st, [], [ErrorParsing err])"
    by (simp add: on_message_def handle_def and_then_def)
next
  assume "get_prop v ''type'' = Inl err"
  then show "on_message n e w userColor (Inr v) st = (st, [], [ErrorParsing err])"
    by (simp add: on_message_def handle_def and_then_def)
next
  assume a: "get_prop v ''type'' = Inr t \<and> t \<notin> Str ` set message_types"
  then obtain d where d: "get_prop v ''data'' = Inr d"
    using get_prop_total by blast
  from a have "t \<noteq> Str ''draw-start''" "t \<noteq> Str ''draw-continue''" "t \<noteq> Str ''draw-end''"
    "t \<noteq> Str ''cursor-move''" "t \<noteq> Str ''clear-canvas''" "t \<noteq> Str ''chat-message''"
    "t \<noteq> Str ''user-typing''"
    by (auto simp: message_types_def)
  then show "on_message n e w userColor (Inr v) st = (st, [], [UnknownMessageType t])"
    using a d by (simp add: on_message_def handle_dispatch)
qed

text \<open>
  On the two-session state: a syntax error, the frame \<^verbatim>\<open>null\<close>, a frame of type
  \<^verbatim>\<open>erase\<close> and a frame whose type is the number 7.
\<close>

theorem malformed_dropped_witness:
  "on_message all_open env0 1 (Str ''#FF6B6B'') (Inl SyntaxError) two_users
     = (two_users, [], [ErrorParsing SyntaxError])
   \<and> on_message all_open env0 1 (Str ''#FF6B6B'') (Inr Null) two_users
     = (two_users, [], [ErrorParsing TypeError])
   \<and> on_message all_open env0 1 (Str ''#FF6B6B'') (Inr (envelope ''erase'' (Obj []))) two_users
     = (two_users, [], [UnknownMessageType (Str ''erase'')])
   \<and> on_message all_open env0 1 (Str ''#FF6B6B'') (Inr (Obj [(''type'', Num 7)])) two_users
     = (two_users, [], [UnknownMessageType (Num 7)])"
  using malformed_dropped [where err = SyntaxError and n = all_open and e = env0 and w = 1
      and userColor = "Str ''#FF6B6B''" and st = two_users and v = "envelope ''erase'' (Obj [])"
      and t = "Str ''erase''"]
    malformed_dropped [where err = TypeError and n = all_open and e = env0 and w = 1
      and userColor = "Str ''#FF6B6B''" and st = two_users and v = Null and t = Undefined]
    malformed_dropped [where err = TypeError and n = all_open and e = env0 and w = 1
      and userColor = "Str ''#FF6B6B''" and st = two_users and v = "Obj [(''type'', Num 7)]"
      and t = "Num 7"]
  by (simp add: envelope_def message_types_def image_iff)

section \<open>Continuing a stroke\<close>

text \<open>\<^verbatim>\<open>find\<close> returns the first stroke on which its callback is true.\<close>

lemma find_stroke_first:
  "i < length ss \<Longrightarrow> is_current_stroke u d (ss ! i) \<Longrightarrow>
   \<forall>j<i. \<not> is_current_stroke u d (ss ! j) \<Longrightarrow> find_stroke u d ss = Inr (Some i)"
proof (induction ss arbitrary: i)
  case Nil
  then show ?case by simp
next
  case (Cons s ss)
  show ?case
  proof (cases i)
    case 0
    with Cons.prems show ?thesis by (simp add: is_current_stroke_def)
  next
    case (Suc k)
    with Cons.prems have k: "k < length ss" "is_current_stroke u d (ss ! k)"
      by simp_all
    have before: "\<forall>j<k. \<not> is_current_stroke u d (ss ! j)"
    proof (intro allI impI)
      fix j assume "j < k"
      then have "Suc j < i" using Suc by simp
      with Cons.prems(3) have "\<not> is_current_stroke u d ((s # ss) ! Suc j)" by blast
      then show "\<not> is_current_stroke u d (ss ! j)" by simp
    qed
    have rec: "find_stroke u d ss = Inr (Some k)"
      using Cons.IH [OF k before] .
    have head: "\<not> is_current_stroke u d s"
      using Cons.prems(3) Suc by (metis nth_Cons_0 zero_less_Suc)
    have sid: "get_prop d ''strokeId'' = Inr (Str (stroke_id (ss ! k)))"
      using k(2) by (simp add: is_current_stroke_def)
    show ?thesis
      using rec head sid Suc by (auto simp: is_current_stroke_def)
  qed
qed

lemma find_stroke_absent:
  "\<forall>s\<in>set ss. \<not> is_current_stroke u d s \<Longrightarrow> find_stroke u d ss \<noteq> Inr (Some i)"
proof (induction ss arbitrary: i)
  case Nil
  then show ?case by simp
next
  case (Cons s ss)
  then have "\<And>k. find_stroke u d ss \<noteq> Inr (Some k)" by simp
  moreover have "\<not> is_current_stroke u d s" using Cons.prems by simp
  ultimately show ?case
    by (auto simp: is_current_stroke_def split: sum.splits option.splits)
qed

lemma draw_continue_absent:
  assumes "\<forall>s\<in>set (strokes st). \<not> is_current_stroke u d s"
  shows "draw_continue n u d st = Inr (st, [], []) \<or> (\<exists>err. draw_continue n u d st = Inl err)"
proof (cases "find_stroke u d (strokes st)")
  case (Inl err)
  then show ?thesis by (simp add: draw_continue_def and_then_def)
next
  case (Inr r)
  with find_stroke_absent [OF assms] have "r = None" by (cases r) auto
  with Inr show ?thesis by (simp add: draw_continue_def and_then_def)
qed

lemma draw_continue_present:
  assumes "i < length (strokes st)" and "is_current_stroke u d (strokes st ! i)"
    and "\<forall>j<i. \<not> is_current_stroke u d (strokes st ! j)"
    and "get_prop d ''x'' = Inr px" and "get_prop d ''y'' = Inr py"
  shows "draw_continue n u d st =
           Inr (st\<lparr>strokes := push_point i \<lparr>pt_x = px, pt_y = py\<rparr> (strokes st)\<rparr>,
                send_all n (DrawContinue (Str (stroke_id (strokes st ! i))) px py), [])"
proof -
  have "find_stroke u d (strokes st) = Inr (Some i)"
    using assms(1-3) by (rule find_stroke_first)
  moreover have "get_prop d ''strokeId'' = Inr (Str (stroke_id (strokes st ! i)))"
    using assms(2) by (simp add: is_current_stroke_def)
  ultimately show ?thesis
    using assms(4,5) by (simp add: draw_continue_def and_then_def)
qed

lemma on_message_draw_continue:
  assumes "get_prop v ''type'' = Inr (Str ''draw-continue'')" and "get_prop v ''data'' = Inr d"
  shows "on_message n e w userColor (Inr v) st =
           (case draw_continue n (map_get (connectedClients st) w) d st of
              Inl err \<Rightarrow> (st, [], [ErrorParsing err]) | Inr r \<Rightarrow> r)"
  using assms by (simp add: on_message_def handle_dispatch)

text \<open>
  Claim C1, as the code has it. A \<^verbatim>\<open>draw-continue\<close> frame from socket \<open>w\<close> appends its
  point to the first stroke that carries the named id and whose \<^verbatim>\<open>userId\<close> is the one
  that \<^verbatim>\<open>connectedClients\<close> holds for \<open>w\<close>, and sends a \<^verbatim>\<open>draw-continue\<close> frame to
  every open client. When no stroke has both, the state is the one before and nothing is
  sent.
\<close>

theorem draw_continue_by_owner:
  assumes "get_prop v ''type'' = Inr (Str ''draw-continue'')" and "get_prop v ''data'' = Inr d"
  shows "((\<forall>s\<in>set (strokes st). \<not> is_current_stroke (map_get (connectedClients st) w) d s) \<longrightarrow>
            fst (on_message n e w userColor (Inr v) st) = st
            \<and> fst (snd (on_message n e w userColor (Inr v) st)) = [])
       \<and> (i < length (strokes st)
            \<and> is_current_stroke (map_get (connectedClients st) w) d (strokes st ! i)
            \<and> (\<forall>j<i. \<not> is_current_stroke (map_get (connectedClients st) w) d (strokes st ! j)) \<longrightarrow>
            (\<exists>px py. get_prop d ''x'' = Inr px \<and> get_prop d ''y'' = Inr py
               \<and> on_message n e w userColor (Inr v) st =
                   (st\<lparr>strokes := push_point i \<lparr>pt_x = px, pt_y = py\<rparr> (strokes st)\<rparr>,
                    map (\<lambda>client. (client, DrawContinue (Str (stroke_id (strokes st ! i))) px py))
                      (open_clients n), [])))"
proof (intro conjI impI)
  assume "\<forall>s\<in>set (strokes st). \<not> is_current_stroke (map_get (connectedClients st) w) d s"
  then have "draw_continue n (map_get (connectedClients st) w) d st = Inr (st, [], [])
      \<or> (\<exists>err. draw_continue n (map_get (connectedClients st) w) d st = Inl err)"
    by (rule draw_continue_absent)
  then show "fst (on_message n e w userColor (Inr v) st) = st"
    and "fst (snd (on_message n e w userColor (Inr v) st)) = []"
    by (auto simp: on_message_draw_continue [OF assms])
next
  assume a: "i < length (strokes st)
            \<and> is_current_stroke (map_get (connectedClients st) w) d (strokes st ! i)
            \<and> (\<forall>j<i. \<not> is_current_stroke (map_get (connectedClients st) w) d (strokes st ! j))"
  then have "get_prop d ''strokeId'' = Inr (Str (stroke_id (strokes st ! i)))"
    by (simp add: is_current_stroke_def)
  then obtain px py where p: "get_prop d ''x'' = Inr px" "get_prop d ''y'' = Inr py"
    using get_prop_total by blast
  from a have "draw_continue n (map_get (connectedClients st) w) d st =
           Inr (st\<lparr>strokes := push_point i \<lparr>pt_x = px, pt_y = py\<rparr> (strokes st)\<rparr>,
                send_all n (DrawContinue (Str (stroke_id (strokes st ! i))) px py), [])"
    using p by (intro draw_continue_present) simp_all
  then show "\<exists>px py. get_prop d ''x'' = Inr px \<and> get_prop d ''y'' = Inr py
               \<and> on_message n e w userColor (Inr v) st =
                   (st\<lparr>strokes := push_point i \<lparr>pt_x = px, pt_y = py\<rparr> (strokes st)\<rparr>,
                    map (\<lambda>client. (client, DrawContinue (Str (stroke_id (strokes st ! i))) px py))
                      (open_clients n), [])"
    using p by (simp add: on_message_draw_continue [OF assms] send_all_def)
qed

text \<open>
  The owner of stroke \<^verbatim>\<open>s1\<close> (socket 1) continues it; the other session (socket 2)
  names it and nothing happens.
\<close>

theorem draw_continue_by_owner_witness:
  "on_message all_open env0 1 (Str ''#FF6B6B'') (Inr continue_s1) two_users =
     (two_users\<lparr>strokes := [stroke1\<lparr>stroke_points :=
                     [\<lparr>pt_x = Num 10, pt_y = Num 10\<rparr>, \<lparr>pt_x = Num 11, pt_y = Num 12\<rparr>]\<rparr>]\<rparr>,
      [(1, DrawContinue (Str ''s1'') (Num 11) (Num 12)),
       (2, DrawContinue (Str ''s1'') (Num 11) (Num 12))], [])
   \<and> fst (on_message all_open env0 2 (Str ''#4ECDC4'') (Inr continue_s1) two_users) = two_users
   \<and> fst (snd (on_message all_open env0 2 (Str ''#4ECDC4'') (Inr continue_s1) two_users)) = []"
  using draw_continue_by_owner [where v = continue_s1
      and d = "Obj [(''strokeId'', Str ''s1''), (''x'', Num 11), (''y'', Num 12)]"
      and st = two_users and w = 1 and i = 0 and n = all_open and e = env0
      and userColor = "Str ''#FF6B6B''"]
    draw_continue_by_owner [where v = continue_s1
      and d = "Obj [(''strokeId'', Str ''s1''), (''x'', Num 11), (''y'', Num 12)]"
      and st = two_users and w = 2 and i = 0 and n = all_open and e = env0
      and userColor = "Str ''#4ECDC4''"]
  by (simp add: example_defs is_current_stroke_def map_get_def push_point_def open_clients_def)

text \<open>
  Claim C1 as stated fails: stroke \<^verbatim>\<open>s1\<close> exists and its owner \<^verbatim>\<open>u1\<close> is
  registered, yet the frame that names it, sent by the other registered session, appends
  nothing.
\<close>

theorem draw_continue_other_session_counterexample:
  "stroke_id (strokes two_users ! 0) = ''s1''
   \<and> stroke_userId (strokes two_users ! 0) = Some ''u1''
   \<and> map_get (users two_users) ''u1'' = Some alice
   \<and> map_get (connectedClients two_users) 1 = Some ''u1''
   \<and> on_message all_open env0 2 (Str ''#4ECDC4'') (Inr continue_s1) two_users = (two_users, [], [])"
  by (simp add: example_defs on_message_def handle_def and_then_def draw_continue_def map_get_def)

section \<open>Ending a stroke\<close>

lemma draw_end_state:
  "draw_end n d st = Inr r \<Longrightarrow> fst r = st"
  by (auto simp: draw_end_def and_then_def split: if_splits sum.splits)

text \<open>
  Claim C3, as the code has it. A \<^verbatim>\<open>draw-end\<close> frame leaves the whole state
  (strokes, users, connected clients) as it was, whatever its payload; a frame handled
  after it is handled as if the \<^verbatim>\<open>draw-end\<close> had never arrived; and a
  \<^verbatim>\<open>draw-continue\<close> frame that names a stroke of its sender, handled after the
  \<^verbatim>\<open>draw-end\<close>, appends its point to that stroke.
\<close>

theorem draw_end_advisory:
  assumes "get_prop vE ''type'' = Inr (Str ''draw-end'')"
  shows "fst (on_message n e w userColor (Inr vE) st) = st
       \<and> on_message n' e' w' userColor' (Inr vC) (fst (on_message n e w userColor (Inr vE) st))
           = on_message n' e' w' userColor' (Inr vC) st
       \<and> (get_prop vC ''type'' = Inr (Str ''draw-continue'') \<and> get_prop vC ''data'' = Inr d
            \<and> get_prop d ''x'' = Inr px \<and> get_prop d ''y'' = Inr py
            \<and> i < length (strokes st)
            \<and> is_current_stroke (map_get (connectedClients st) w') d (strokes st ! i)
            \<and> (\<forall>j<i. \<not> is_current_stroke (map_get (connectedClients st) w') d (strokes st ! j)) \<longrightarrow>
          strokes (fst (on_message n' e' w' userColor' (Inr vC)
                          (fst (on_message n e w userColor (Inr vE) st))))
            = (strokes st)[i := (strokes st ! i)
                 \<lparr>stroke_points := stroke_points (strokes st ! i) @ [\<lparr>pt_x = px, pt_y = py\<rparr>]\<rparr>])"
proof -
  obtain dE where dE: "get_prop vE ''data'' = Inr dE"
    using assms get_prop_total by blast
  have unchanged: "fst (on_message n e w userColor (Inr vE) st) = st"
    using draw_end_state [of n dE st]
    by (cases "draw_end n dE st") (simp_all add: on_message_typed [OF assms dE])
  have appended: "strokes (fst (on_message n' e' w' userColor' (Inr vC) st))
            = (strokes st)[i := (strokes st ! i)
                 \<lparr>stroke_points := stroke_points (strokes st ! i) @ [\<lparr>pt_x = px, pt_y = py\<rparr>]\<rparr>]"
    if c: "get_prop vC ''type'' = Inr (Str ''draw-continue'')" "get_prop vC ''data'' = Inr d"
      and p: "get_prop d ''x'' = Inr px" "get_prop d ''y'' = Inr py"
      and cur: "i < length (strokes st)"
        "is_current_stroke (map_get (connectedClients st) w') d (strokes st ! i)"
        "\<forall>j<i. \<not> is_current_stroke (map_get (connectedClients st) w') d (strokes st ! j)"
    using draw_continue_present [OF cur p, of n']
    by (simp add: on_message_draw_continue [OF c] push_point_def)
  show ?thesis
    using unchanged appended by simp
qed

text \<open>Session 1 ends stroke \<^verbatim>\<open>s1\<close> and then continues it.\<close>

theorem draw_end_advisory_witness:
  "fst (on_message all_open env0 1 (Str ''#FF6B6B'') (Inr end_s1) two_users) = two_users
   \<and> strokes (fst (on_message all_open env0 1 (Str ''#FF6B6B'') (Inr continue_s1)
               (fst (on_message all_open env0 1 (Str ''#FF6B6B'') (Inr end_s1) two_users))))
     = [stroke1\<lparr>stroke_points :=
                     [\<lparr>pt_x = Num 10, pt_y = Num 10\<rparr>, \<lparr>pt_x = Num 11, pt_y = Num 12\<rparr>]\<rparr>]"
proof -
  let ?d = "Obj [(''strokeId'', Str ''s1''), (''x'', Num 11), (''y'', Num 12)]"
  have e: "get_prop end_s1 ''type'' = Inr (Str ''draw-end'')"
    by (simp add: end_s1_def envelope_def)
  have c: "get_prop continue_s1 ''type'' = Inr (Str ''draw-continue'')
      \<and> get_prop continue_s1 ''data'' = Inr ?d
      \<and> get_prop ?d ''x'' = Inr (Num 11) \<and> get_prop ?d ''y'' = Inr (Num 12)
      \<and> 0 < length (strokes two_users)
      \<and> is_current_stroke (map_get (connectedClients two_users) 1) ?d (strokes two_users ! 0)
      \<and> (\<forall>j<0. \<not> is_current_stroke (map_get (connectedClients two_users) 1) ?d
                    (strokes two_users ! j))"
    by (simp add: example_defs is_current_stroke_def map_get_def)
  have r: "(strokes two_users)[0 := (strokes two_users ! 0)
             \<lparr>stroke_points := stroke_points (strokes two_users ! 0) @ [\<lparr>pt_x = Num 11, pt_y = Num 12\<rparr>]\<rparr>]
           = [stroke1\<lparr>stroke_points :=
                     [\<lparr>pt_x = Num 10, pt_y = Num 10\<rparr>, \<lparr>pt_x = Num 11, pt_y = Num 12\<rparr>]\<rparr>]"
    by (simp add: two_users_def stroke1_def)
  note t = draw_end_advisory [OF e, where vC = continue_s1 and n = all_open and e = env0
      and w = 1 and userColor = "Str ''#FF6B6B''" and st = two_users and n' = all_open
      and e' = env0 and w' = 1 and userColor' = "Str ''#FF6B6B''" and i = 0 and px = "Num 11"
      and py = "Num 12" and d = ?d]
  from t have a: "fst (on_message all_open env0 1 (Str ''#FF6B6B'') (Inr end_s1) two_users) = two_users"
    by blast
  from t c have "strokes (fst (on_message all_open env0 1 (Str ''#FF6B6B'') (Inr continue_s1)
               (fst (on_message all_open env0 1 (Str ''#FF6B6B'') (Inr end_s1) two_users))))
     = (strokes two_users)[0 := (strokes two_users ! 0)
             \<lparr>stroke_points := stroke_points (strokes two_users ! 0) @ [\<lparr>pt_x = Num 11, pt_y = Num 12\<rparr>]\<rparr>]"
    by blast
  with a r show ?thesis by (simp only:)
qed

text \<open>
  Claim C3 as stated fails in its second half: session 1 ends its stroke \<^verbatim>\<open>s1\<close>, and
  the \<^verbatim>\<open>draw-continue\<close> for \<^verbatim>\<open>s1\<close> that the other registered session sends
  afterwards appends nothing and is not broadcast.
\<close>

theorem draw_end_then_other_session_counterexample:
  "fst (on_message all_open env0 1 (Str ''#FF6B6B'') (Inr end_s1) two_users) = two_users
   \<and> stroke_id (strokes two_users ! 0) = ''s1''
   \<and> map_get (connectedClients two_users) 2 = Some ''u2''
   \<and> map_get (users two_users) ''u2'' = Some bob
   \<and> on_message all_open env0 2 (Str ''#4ECDC4'') (Inr continue_s1)
         (fst (on_message all_open env0 1 (Str ''#FF6B6B'') (Inr end_s1) two_users))
       = (two_users, [], [])
   \<and> stroke_points (strokes two_users ! 0) = [\<lparr>pt_x = Num 10, pt_y = Num 10\<rparr>]"
  by (simp add: example_defs on_message_def handle_def and_then_def draw_end_def draw_continue_def
      open_clients_def send_all_def map_get_def)

section \<open>Clearing the canvas\<close>

text \<open>
  Claim C4. A \<^verbatim>\<open>clear-canvas\<close> frame sets the strokes to the empty sequence and sends
  \<^verbatim>\<open>clear-canvas\<close> to every open client. When the strokes are empty already the
  state after it is the state before it, and the event is sent all the same. Clearing
  twice gives the state that clearing once gives.
\<close>

theorem clear_when_empty:
  assumes "get_prop v ''type'' = Inr (Str ''clear-canvas'')"
  shows "on_message n e w userColor (Inr v) st =
           (st\<lparr>strokes := []\<rparr>, map (\<lambda>client. (client, ClearCanvas)) (open_clients n), [])
       \<and> (strokes st = [] \<longrightarrow>
            on_message n e w userColor (Inr v) st =
              (st, map (\<lambda>client. (client, ClearCanvas)) (open_clients n), []))
       \<and> fst (on_message n' e' w' userColor' (Inr v) (fst (on_message n e w userColor (Inr v) st)))
            = fst (on_message n e w userColor (Inr v) st)"
proof -
  obtain d where d: "get_prop v ''data'' = Inr d"
    using assms get_prop_total by blast
  have clear: "\<And>n e w userColor st. on_message n e w userColor (Inr v) st =
           (st\<lparr>strokes := []\<rparr>, map (\<lambda>client. (client, ClearCanvas)) (open_clients n), [])"
    by (simp add: on_message_typed [OF assms d] clear_canvas_def send_all_def)
  show ?thesis
    by (simp add: clear)
qed

text \<open>The two-session state with no strokes, cleared by session 2.\<close>

theorem clear_when_empty_witness:
  "on_message all_open env0 2 (Str ''#4ECDC4'') (Inr (envelope ''clear-canvas'' (Obj [])))
     (two_users\<lparr>strokes := []\<rparr>)
   = (two_users\<lparr>strokes := []\<rparr>, [(1, ClearCanvas), (2, ClearCanvas)], [])"
  using clear_when_empty [where v = "envelope ''clear-canvas'' (Obj [])" and n = all_open
      and e = env0 and w = 2 and userColor = "Str ''#4ECDC4''" and st = "two_users\<lparr>strokes := []\<rparr>"]
  by (simp add: envelope_def all_open_def open_clients_def)

section \<open>Cursor positions\<close>

lemma map_get_map_set_same: "map_get (map_set m k v) k = Some v"
  by (induction m k v rule: map_set.induct) (auto simp: map_get_def)

lemma broadcast_except:
  "broadcast n m (Some w) =
     map (\<lambda>client. (client, m)) (filter (\<lambda>client. client \<noteq> w) (open_clients n))"
  by (simp add: broadcast_def open_clients_def conj_commute)

lemma broadcast_all:
  "broadcast n m None = map (\<lambda>client. (client, m)) (open_clients n)"
  by (simp add: broadcast_def open_clients_def)

text \<open>
  Claim C8. A \<^verbatim>\<open>cursor-move\<close> frame from a socket whose user id is not a key of
  \<^verbatim>\<open>users\<close> (or that has no user id) changes nothing and sends nothing. From a
  registered session, with a payload that can be read, it stores the position in that
  user's entry and sends \<^verbatim>\<open>cursor-move\<close> to every open client but the sender.
\<close>

theorem cursor_move_registered_only:
  assumes "get_prop v ''type'' = Inr (Str ''cursor-move'')" and "get_prop v ''data'' = Inr d"
  shows "((case map_get (connectedClients st) w of
             None \<Rightarrow> True | Some u \<Rightarrow> map_get (users st) u = None) \<longrightarrow>
            on_message n e w userColor (Inr v) st = (st, [], []))
       \<and> (map_get (connectedClients st) w = Some u \<and> map_get (users st) u = Some cursorUser
            \<and> get_prop d ''x'' = Inr px \<and> get_prop d ''y'' = Inr py \<longrightarrow>
            on_message n e w userColor (Inr v) st =
              (st\<lparr>users := map_set (users st) u
                              (cursorUser\<lparr>user_cursor := \<lparr>pt_x = px, pt_y = py\<rparr>\<rparr>)\<rparr>,
               map (\<lambda>client. (client, CursorMove (Some u) px py (user_color cursorUser)))
                 (filter (\<lambda>client. client \<noteq> w) (open_clients n)),
               [])
            \<and> map_get (users (fst (on_message n e w userColor (Inr v) st))) u
                = Some (cursorUser\<lparr>user_cursor := \<lparr>pt_x = px, pt_y = py\<rparr>\<rparr>))"
proof (intro conjI impI)
  assume "case map_get (connectedClients st) w of
             None \<Rightarrow> True | Some u \<Rightarrow> map_get (users st) u = None"
  then have "cursor_move n w (map_get (connectedClients st) w) d st = Inr (st, [], [])"
    by (auto simp: cursor_move_def split: option.splits)
  then show "on_message n e w userColor (Inr v) st = (st, [], [])"
    by (simp add: on_message_typed [OF assms])
next
  assume a: "map_get (connectedClients st) w = Some u \<and> map_get (users st) u = Some cursorUser
            \<and> get_prop d ''x'' = Inr px \<and> get_prop d ''y'' = Inr py"
  then have "cursor_move n w (map_get (connectedClients st) w) d st =
      Inr (st\<lparr>users := map_set (users st) u
                              (cursorUser\<lparr>user_cursor := \<lparr>pt_x = px, pt_y = py\<rparr>\<rparr>)\<rparr>,
           broadcast n (CursorMove (Some u) px py (user_color cursorUser)) (Some w), [])"
    by (simp add: cursor_move_def and_then_def)
  then show res: "on_message n e w userColor (Inr v) st =
              (st\<lparr>users := map_set (users st) u
                              (cursorUser\<lparr>user_cursor := \<lparr>pt_x = px, pt_y = py\<rparr>\<rparr>)\<rparr>,
               map (\<lambda>client. (client, CursorMove (Some u) px py (user_color cursorUser)))
                 (filter (\<lambda>client. client \<noteq> w) (open_clients n)),
               [])"
    by (simp add: on_message_typed [OF assms] broadcast_except)
  show "map_get (users (fst (on_message n e w userColor (Inr v) st))) u
                = Some (cursorUser\<lparr>user_cursor := \<lparr>pt_x = px, pt_y = py\<rparr>\<rparr>)"
    by (simp add: res map_get_map_set_same)
qed

text \<open>
  Socket 1 after its session has gone, and socket 1 while registered: only socket 2
  receives the event.
\<close>

theorem cursor_move_registered_only_witness:
  "on_message all_open env0 1 (Str ''#FF6B6B'') (Inr cursor_at) gone = (gone, [], [])
   \<and> on_message all_open env0 1 (Str ''#FF6B6B'') (Inr cursor_at) two_users =
       (two_users\<lparr>users := [(''u1'', alice\<lparr>user_cursor := \<lparr>pt_x = Num 5, pt_y = Num 6\<rparr>\<rparr>),
                             (''u2'', bob)]\<rparr>,
        [(2, CursorMove (Some ''u1'') (Num 5) (Num 6) (Str ''#FF6B6B''))], [])"
proof -
  let ?d = "Obj [(''x'', Num 5), (''y'', Num 6)]"
  have t: "get_prop cursor_at ''type'' = Inr (Str ''cursor-move'')"
    and d: "get_prop cursor_at ''data'' = Inr ?d"
    by (simp_all add: cursor_at_def envelope_def)
  have g: "case map_get (connectedClients gone) 1 of
             None \<Rightarrow> True | Some u \<Rightarrow> map_get (users gone) u = None"
    by (simp add: gone_def map_get_def)
  have r: "map_get (connectedClients two_users) 1 = Some ''u1''
      \<and> map_get (users two_users) ''u1'' = Some alice
      \<and> get_prop ?d ''x'' = Inr (Num 5) \<and> get_prop ?d ''y'' = Inr (Num 6)"
    by (simp add: two_users_def map_get_def)
  have e1: "two_users\<lparr>users := map_set (users two_users) ''u1''
                 (alice\<lparr>user_cursor := \<lparr>pt_x = Num 5, pt_y = Num 6\<rparr>\<rparr>)\<rparr>
        = two_users\<lparr>users := [(''u1'', alice\<lparr>user_cursor := \<lparr>pt_x = Num 5, pt_y = Num 6\<rparr>\<rparr>),
                             (''u2'', bob)]\<rparr>"
    by (simp add: two_users_def)
  have e2: "map (\<lambda>client. (client, CursorMove (Some ''u1'') (Num 5) (Num 6) (user_color alice)))
                 (filter (\<lambda>client. client \<noteq> 1) (open_clients all_open))
        = [(2, CursorMove (Some ''u1'') (Num 5) (Num 6) (Str ''#FF6B6B''))]"
    by (simp add: all_open_def open_clients_def alice_def)
  from cursor_move_registered_only [OF t d, where st = gone and w = 1 and n = all_open
      and e = env0 and userColor = "Str ''#FF6B6B''"] g
  have a: "on_message all_open env0 1 (Str ''#FF6B6B'') (Inr cursor_at) gone = (gone, [], [])"
    by blast
  from cursor_move_registered_only [OF t d, where st = two_users and w = 1 and n = all_open
      and e = env0 and userColor = "Str ''#FF6B6B''" and u = "''u1''" and cursorUser = alice
      and px = "Num 5" and py = "Num 6"] r
  have "on_message all_open env0 1 (Str ''#FF6B6B'') (Inr cursor_at) two_users =
       (two_users\<lparr>users := map_set (users two_users) ''u1''
                 (alice\<lparr>user_cursor := \<lparr>pt_x = Num 5, pt_y = Num 6\<rparr>\<rparr>)\<rparr>,
        map (\<lambda>client. (client, CursorMove (Some ''u1'') (Num 5) (Num 6) (user_color alice)))
                 (filter (\<lambda>client. client \<noteq> 1) (open_clients all_open)), [])"
    by blast
  with a e1 e2 show ?thesis by (simp only:)
qed

section \<open>Beginning a stroke\<close>

text \<open>
  Claim C2, as the code has it. A \<^verbatim>\<open>draw-start\<close> frame whose payload can be read
  appends exactly one stroke. Its points are the single point of the payload; its colour
  is the payload's colour when that value is truthy and the colour assigned to the
  connection otherwise; its width is the payload's width when truthy and 2 otherwise; its
  id is the value that \<^verbatim>\<open>uuidv4()\<close> returned on the server, whatever the payload holds;
  its owner is the sender. The stroke is sent as \<^verbatim>\<open>draw-start\<close> to every open client,
  the sender among them when its socket is open.
\<close>

theorem draw_start_appends:
  assumes "get_prop v ''type'' = Inr (Str ''draw-start'')" and "get_prop v ''data'' = Inr d"
    and "get_prop d ''x'' = Inr px" and "get_prop d ''y'' = Inr py"
    and "get_prop d ''color'' = Inr color" and "get_prop d ''width'' = Inr width"
  shows "(let stroke = \<lparr>stroke_id = uuidv4 e,
                        stroke_userId = map_get (connectedClients st) w,
                        stroke_color = (if truthy color then color else userColor),
                        stroke_width = (if truthy width then width else Num 2),
                        stroke_points = [\<lparr>pt_x = px, pt_y = py\<rparr>],
                        stroke_timestamp = date_now e\<rparr>
          in on_message n e w userColor (Inr v) st =
               (st\<lparr>strokes := strokes st @ [stroke]\<rparr>,
                map (\<lambda>client. (client, DrawStart stroke)) (open_clients n), [])
           \<and> (w \<in> set (wss_clients n) \<and> readyState n w = OPEN \<longrightarrow>
                (w, DrawStart stroke) \<in> set (fst (snd (on_message n e w userColor (Inr v) st)))))"
proof -
  have "draw_start n e userColor (map_get (connectedClients st) w) d st =
      (let stroke = \<lparr>stroke_id = uuidv4 e,
                        stroke_userId = map_get (connectedClients st) w,
                        stroke_color = (if truthy color then color else userColor),
                        stroke_width = (if truthy width then width else Num 2),
                        stroke_points = [\<lparr>pt_x = px, pt_y = py\<rparr>],
                        stroke_timestamp = date_now e\<rparr>
       in Inr (st\<lparr>strokes := strokes st @ [stroke]\<rparr>,
                map (\<lambda>client. (client, DrawStart stroke)) (open_clients n), []))"
    using assms(3-6) by (simp add: draw_start_def and_then_def js_or_def send_all_def)
  then show ?thesis
    by (simp add: on_message_typed [OF assms(1,2)] Let_def open_clients_def)
qed

text \<open>Session 2 begins a red stroke of width 3 at (10, 10).\<close>

theorem draw_start_appends_witness:
  "on_message all_open env0 2 (Str ''#4ECDC4'') (Inr start_red) two_users =
     (two_users\<lparr>strokes := [stroke1,
         \<lparr>stroke_id = ''s2'', stroke_userId = Some ''u2'', stroke_color = Str ''#FF0000'',
          stroke_width = Num 3, stroke_points = [\<lparr>pt_x = Num 10, pt_y = Num 10\<rparr>],
          stroke_timestamp = 1000\<rparr>]\<rparr>,
      [(1, DrawStart \<lparr>stroke_id = ''s2'', stroke_userId = Some ''u2'',
          stroke_color = Str ''#FF0000'',
          stroke_width = Num 3, stroke_points = [\<lparr>pt_x = Num 10, pt_y = Num 10\<rparr>],
          stroke_timestamp = 1000\<rparr>),
       (2, DrawStart \<lparr>stroke_id = ''s2'', stroke_userId = Some ''u2'',
          stroke_color = Str ''#FF0000'',
          stroke_width = Num 3, stroke_points = [\<lparr>pt_x = Num 10, pt_y = Num 10\<rparr>],
          stroke_timestamp = 1000\<rparr>)], [])"
  using draw_start_appends [where v = start_red
      and d = "Obj [(''x'', Num 10), (''y'', Num 10), (''color'', Str ''#FF0000''), (''width'', Num 3)]"
      and px = "Num 10" and py = "Num 10" and color = "Str ''#FF0000''" and width = "Num 3"
      and e = env0 and st = two_users and w = 2 and userColor = "Str ''#4ECDC4''" and n = all_open]
  by (simp add: start_red_def envelope_def env0_def two_users_def all_open_def map_get_def
      open_clients_def Let_def)

text \<open>
  Claim C2 as stated fails: the payload asks for the colour \<^verbatim>\<open>""\<close>, and the stroke
  gets the colour of the connection instead.
\<close>

theorem draw_start_blank_color_counterexample:
  "get_prop start_blank ''type'' = Inr (Str ''draw-start'')
   \<and> get_prop start_blank ''data''
       = Inr (Obj [(''x'', Num 10), (''y'', Num 10), (''color'', Str []), (''width'', Num 3)])
   \<and> map_get (connectedClients two_users) 2 = Some ''u2''
   \<and> map_get (users two_users) ''u2'' = Some bob
   \<and> stroke_color (last (strokes (fst
        (on_message all_open env0 2 (Str ''#4ECDC4'') (Inr start_blank) two_users))))
       = Str ''#4ECDC4''
   \<and> stroke_color (last (strokes (fst
        (on_message all_open env0 2 (Str ''#4ECDC4'') (Inr start_blank) two_users))))
       \<noteq> Str []"
  by (simp add: start_blank_def envelope_def two_users_def map_get_def on_message_def handle_def
      and_then_def draw_start_def js_or_def Let_def)

section \<open>Who extends a stroke\<close>

lemma find_stroke_found:
  "find_stroke u d ss = Inr (Some i) \<Longrightarrow> i < length ss \<and> stroke_userId (ss ! i) = u"
proof (induction ss arbitrary: i)
  case Nil
  then show ?case by simp
next
  case (Cons s ss)
  show ?case
  proof (cases i)
    case 0
    with Cons.prems show ?thesis
      by (auto split: if_splits sum.splits option.splits)
  next
    case (Suc k)
    with Cons.prems have "find_stroke u d ss = Inr (Some k)"
      by (auto split: if_splits sum.splits option.splits)
    with Cons.IH Suc show ?thesis by simp
  qed
qed

lemma find_stroke_readable:
  assumes "get_prop d ''strokeId'' = Inr sid"
    and "\<forall>s\<in>set ss. Str (stroke_id s) = sid \<longrightarrow> stroke_userId s \<noteq> u"
  shows "find_stroke u d ss = Inr None"
  using assms(2) by (induction ss) (auto simp: assms(1))

lemma draw_start_strokes:
  assumes "draw_start n e userColor u d st = Inr r"
  shows "\<exists>s. strokes (fst r) = strokes st @ [s] \<and> stroke_userId s = u
              \<and> length (stroke_points s) = 1"
  using assms by (auto simp: draw_start_def and_then_def Let_def split: sum.splits)

lemma draw_continue_strokes:
  assumes "draw_continue n u d st = Inr r"
  shows "strokes (fst r) = strokes st
       \<or> (\<exists>i p. i < length (strokes st) \<and> stroke_userId (strokes st ! i) = u
              \<and> strokes (fst r) = push_point i p (strokes st))"
proof (cases "find_stroke u d (strokes st)")
  case (Inl err)
  with assms show ?thesis by (simp add: draw_continue_def and_then_def)
next
  case (Inr found)
  show ?thesis
  proof (cases found)
    case None
    with Inr assms show ?thesis by (auto simp: draw_continue_def and_then_def)
  next
    case (Some i)
    with Inr have "i < length (strokes st) \<and> stroke_userId (strokes st ! i) = u"
      using find_stroke_found by blast
    moreover from Some Inr assms have "\<exists>p. strokes (fst r) = push_point i p (strokes st)"
      by (auto simp: draw_continue_def and_then_def split: sum.splits)
    ultimately show ?thesis by blast
  qed
qed

lemma cursor_move_strokes:
  "cursor_move n w u d st = Inr r \<Longrightarrow> strokes (fst r) = strokes st"
  by (auto simp: cursor_move_def and_then_def split: option.splits sum.splits)

lemma chat_message_state:
  "chat_message n e u d st = Inr r \<Longrightarrow> fst r = st"
  by (auto simp: chat_message_def and_then_def split: option.splits sum.splits if_splits jsval.splits)

lemma user_typing_state:
  "user_typing n w u d st = Inr r \<Longrightarrow> fst r = st"
  by (auto simp: user_typing_def and_then_def split: sum.splits if_splits)

lemma handle_strokes:
  assumes "handle n e w userColor parsed st = Inr r"
  shows "strokes (fst r) = [] \<or> strokes (fst r) = strokes st
       \<or> (\<exists>s. strokes (fst r) = strokes st @ [s]
              \<and> stroke_userId s = map_get (connectedClients st) w
              \<and> length (stroke_points s) = 1)
       \<or> (\<exists>i p. i < length (strokes st)
              \<and> stroke_userId (strokes st ! i) = map_get (connectedClients st) w
              \<and> strokes (fst r) = push_point i p (strokes st))"
proof -
  from assms obtain v t d where v: "parsed = Inr v" "get_prop v ''type'' = Inr t"
    "get_prop v ''data'' = Inr d"
    by (auto simp: handle_def and_then_def split: sum.splits)
  let ?u = "map_get (connectedClients st) w"
  note h = assms [unfolded v(1) handle_dispatch [OF v(2,3)] Let_def]
  consider "t = Str ''draw-start''" | "t = Str ''draw-continue''" | "t = Str ''draw-end''"
    | "t = Str ''cursor-move''" | "t = Str ''clear-canvas''" | "t = Str ''chat-message''"
    | "t = Str ''user-typing''" | "t \<notin> Str ` set message_types"
    by (auto simp: message_types_def)
  then show ?thesis
  proof cases
    case 1
    with h have "draw_start n e userColor ?u d st = Inr r" by simp
    then show ?thesis using draw_start_strokes by blast
  next
    case 2
    with h have "draw_continue n ?u d st = Inr r" by simp
    then show ?thesis using draw_continue_strokes by blast
  next
    case 3
    with h have "draw_end n d st = Inr r" by simp
    then show ?thesis using draw_end_state by simp
  next
    case 4
    with h have "cursor_move n w ?u d st = Inr r" by simp
    then show ?thesis using cursor_move_strokes by simp
  next
    case 5
    with h show ?thesis by (auto simp: clear_canvas_def)
  next
    case 6
    with h have "chat_message n e ?u d st = Inr r" by simp
    then show ?thesis using chat_message_state by simp
  next
    case 7
    with h have "user_typing n w ?u d st = Inr r" by simp
    then show ?thesis using user_typing_state by simp
  next
    case 8
    with h show ?thesis by (auto simp: message_types_def)
  qed
qed

text \<open>
  Claim C10. A \<^verbatim>\<open>draw-continue\<close> frame that names an id whose strokes all belong to
  someone other than the sender changes nothing and sends nothing, also when both
  sessions are registered. Moreover every frame, of any kind, leaves the strokes in one
  of four ways: emptied; as they were; with one new stroke at the end, of one point and
  owned by the sender; or with one point added to one stroke that the sender owns.
  Connecting and disconnecting leave the strokes as they were. So along any run a point
  enters a stroke only through a frame of the stroke's owner.
\<close>

theorem points_only_from_owner:
  "(get_prop v ''type'' = Inr (Str ''draw-continue'') \<and> get_prop v ''data'' = Inr d
      \<and> get_prop d ''strokeId'' = Inr sid
      \<and> (\<forall>s\<in>set (strokes st). Str (stroke_id s) = sid \<longrightarrow>
             stroke_userId s \<noteq> map_get (connectedClients st) w) \<longrightarrow>
      on_message n e w userColor (Inr v) st = (st, [], []))
   \<and> (strokes (fst (on_message n e w userColor parsed st)) = []
       \<or> strokes (fst (on_message n e w userColor parsed st)) = strokes st
       \<or> (\<exists>s. strokes (fst (on_message n e w userColor parsed st)) = strokes st @ [s]
              \<and> stroke_userId s = map_get (connectedClients st) w
              \<and> length (stroke_points s) = 1)
       \<or> (\<exists>i p. i < length (strokes st)
              \<and> stroke_userId (strokes st ! i) = map_get (connectedClients st) w
              \<and> strokes (fst (on_message n e w userColor parsed st))
                  = (strokes st)[i := (strokes st ! i)
                       \<lparr>stroke_points := stroke_points (strokes st ! i) @ [p]\<rparr>]))
   \<and> strokes (fst (on_connection n w connectionId userId random st)) = strokes st
   \<and> strokes (fst (on_close n w connectionId st)) = strokes st"
proof (intro conjI impI)
  assume a: "get_prop v ''type'' = Inr (Str ''draw-continue'') \<and> get_prop v ''data'' = Inr d
      \<and> get_prop d ''strokeId'' = Inr sid
      \<and> (\<forall>s\<in>set (strokes st). Str (stroke_id s) = sid \<longrightarrow>
             stroke_userId s \<noteq> map_get (connectedClients st) w)"
  then have "find_stroke (map_get (connectedClients st) w) d (strokes st) = Inr None"
    by (intro find_stroke_readable [of d sid]) simp_all
  then have "draw_continue n (map_get (connectedClients st) w) d st = Inr (st, [], [])"
    by (simp add: draw_continue_def and_then_def)
  with a show "on_message n e w userColor (Inr v) st = (st, [], [])"
    by (simp add: on_message_draw_continue)
next
  show "strokes (fst (on_message n e w userColor parsed st)) = []
       \<or> strokes (fst (on_message n e w userColor parsed st)) = strokes st
       \<or> (\<exists>s. strokes (fst (on_message n e w userColor parsed st)) = strokes st @ [s]
              \<and> stroke_userId s = map_get (connectedClients st) w
              \<and> length (stroke_points s) = 1)
       \<or> (\<exists>i p. i < length (strokes st)
              \<and> stroke_userId (strokes st ! i) = map_get (connectedClients st) w
              \<and> strokes (fst (on_message n e w userColor parsed st))
                  = (strokes st)[i := (strokes st ! i)
                       \<lparr>stroke_points := stroke_points (strokes st ! i) @ [p]\<rparr>])"
  proof (cases "handle n e w userColor parsed st")
    case (Inl err)
    then show ?thesis by (simp add: on_message_def)
  next
    case (Inr r)
    then have "on_message n e w userColor parsed st = r" by (simp add: on_message_def)
    with handle_strokes [OF Inr] show ?thesis by (simp add: push_point_def)
  qed
next
  show "strokes (fst (on_connection n w connectionId userId random st)) = strokes st"
    by (simp add: on_connection_def Let_def)
next
  show "strokes (fst (on_close n w connectionId st)) = strokes st"
    by (simp add: on_close_def split: option.splits)
qed

text \<open>
  Session 2 names stroke \<^verbatim>\<open>s1\<close> of session 1; and the first session's disconnection
  leaves the stroke in place.
\<close>

theorem points_only_from_owner_witness:
  "on_message all_open env0 2 (Str ''#4ECDC4'') (Inr continue_far) two_users = (two_users, [], [])
   \<and> strokes (fst (on_close all_open 1 ''c1'' two_users)) = [stroke1]"
proof -
  let ?d = "Obj [(''strokeId'', Str ''s1''), (''x'', Num 20), (''y'', Num 21)]"
  have h: "get_prop continue_far ''type'' = Inr (Str ''draw-continue'')
      \<and> get_prop continue_far ''data'' = Inr ?d
      \<and> get_prop ?d ''strokeId'' = Inr (Str ''s1'')
      \<and> (\<forall>s\<in>set (strokes two_users). Str (stroke_id s) = Str ''s1'' \<longrightarrow>
             stroke_userId s \<noteq> map_get (connectedClients two_users) 2)"
    by (simp add: continue_far_def envelope_def two_users_def stroke1_def map_get_def)
  note t = points_only_from_owner [where v = continue_far and d = ?d and sid = "Str ''s1''"
      and st = two_users and w = 2 and n = all_open and e = env0
      and userColor = "Str ''#4ECDC4''"]
  from t h have a: "on_message all_open env0 2 (Str ''#4ECDC4'') (Inr continue_far) two_users
      = (two_users, [], [])"
    by blast
  from points_only_from_owner [where st = two_users and w = 1 and n = all_open
      and connectionId = "''c1''"]
  have "strokes (fst (on_close all_open 1 ''c1'' two_users)) = strokes two_users"
    by blast
  then have "strokes (fst (on_close all_open 1 ''c1'' two_users)) = [stroke1]"
    by (simp add: two_users_def)
  with a show ?thesis by simp
qed

section \<open>Disconnection\<close>

lemma map_get_map_delete: "map_get (map_delete m k) k = None"
  by (induction m) (auto simp: map_get_def map_delete_def)

lemma map_keys_map_delete: "k \<notin> set (map_keys (map_delete m k))"
  by (auto simp: map_keys_def map_delete_def)

text \<open>
  Claim C6. When the socket of a registered session closes (its user id is the non-empty
  string that \<^verbatim>\<open>uuidv4()\<close> gave it), the id leaves \<^verbatim>\<open>users\<close>, the socket leaves
  \<^verbatim>\<open>connectedClients\<close>, \<^verbatim>\<open>user-left\<close> with that id goes to every open client, and
  the strokes are as before. In particular, when the session had begun a stroke and
  closes before ending it, the stroke is still the last of the strokes, with the points,
  colour and width it was created with.
\<close>

theorem close_removes_session:
  assumes "map_get (connectedClients st) w = Some userId" and "userId \<noteq> []"
  shows "on_close n w connectionId st =
           (st\<lparr>users := map_delete (users st) userId,
               connectedClients := map_delete (connectedClients st) w\<rparr>,
            map (\<lambda>client. (client, UserLeft userId)) (open_clients n),
            [UserDisconnected connectionId])
       \<and> map_get (users (fst (on_close n w connectionId st))) userId = None
       \<and> userId \<notin> set (map_keys (users (fst (on_close n w connectionId st))))
       \<and> strokes (fst (on_close n w connectionId st)) = strokes st
       \<and> (get_prop v ''type'' = Inr (Str ''draw-start'') \<and> get_prop v ''data'' = Inr d
            \<and> get_prop d ''x'' = Inr px \<and> get_prop d ''y'' = Inr py
            \<and> get_prop d ''color'' = Inr color \<and> get_prop d ''width'' = Inr width \<longrightarrow>
          strokes (fst (on_close n w connectionId (fst (on_message n' e w userColor (Inr v) st))))
            = strokes st @ [\<lparr>stroke_id = uuidv4 e, stroke_userId = Some userId,
                        stroke_color = (if truthy color then color else userColor),
                        stroke_width = (if truthy width then width else Num 2),
                        stroke_points = [\<lparr>pt_x = px, pt_y = py\<rparr>],
                        stroke_timestamp = date_now e\<rparr>]
          \<and> map_get (users (fst (on_close n w connectionId
                 (fst (on_message n' e w userColor (Inr v) st))))) userId = None)"
proof -
  have close: "on_close n w connectionId st' =
           (st'\<lparr>users := map_delete (users st') userId,
               connectedClients := map_delete (connectedClients st') w\<rparr>,
            map (\<lambda>client. (client, UserLeft userId)) (open_clients n),
            [UserDisconnected connectionId])"
    if "map_get (connectedClients st') w = Some userId" for st'
    using that assms(2) by (simp add: on_close_def broadcast_all)
  have started: "fst (on_message n' e w userColor (Inr v) st) =
        st\<lparr>strokes := strokes st @ [\<lparr>stroke_id = uuidv4 e, stroke_userId = Some userId,
                        stroke_color = (if truthy color then color else userColor),
                        stroke_width = (if truthy width then width else Num 2),
                        stroke_points = [\<lparr>pt_x = px, pt_y = py\<rparr>],
                        stroke_timestamp = date_now e\<rparr>]\<rparr>"
    if "get_prop v ''type'' = Inr (Str ''draw-start'')" "get_prop v ''data'' = Inr d"
      "get_prop d ''x'' = Inr px" "get_prop d ''y'' = Inr py"
      "get_prop d ''color'' = Inr color" "get_prop d ''width'' = Inr width"
    using that assms(1)
    by (simp add: on_message_typed draw_start_def and_then_def js_or_def Let_def)
  show ?thesis
    using assms(1) by (auto simp: close started map_get_map_delete map_keys_map_delete)
qed

text \<open>
  Session 1 leaves the two-session state; and session 1 begins a stroke and leaves.
\<close>

theorem close_removes_session_witness:
  "on_close socket1_closed 1 ''c1'' two_users
     = (gone, [(2, UserLeft ''u1'')], [UserDisconnected ''c1''])
   \<and> strokes (fst (on_close socket1_closed 1 ''c1''
        (fst (on_message all_open env0 1 (Str ''#FF6B6B'') (Inr start_red) two_users))))
      = [stroke1,
         \<lparr>stroke_id = ''s2'', stroke_userId = Some ''u1'', stroke_color = Str ''#FF0000'',
          stroke_width = Num 3, stroke_points = [\<lparr>pt_x = Num 10, pt_y = Num 10\<rparr>],
          stroke_timestamp = 1000\<rparr>]"
  using close_removes_session [where st = two_users and w = 1 and userId = "''u1''"
      and n = socket1_closed and connectionId = "''c1''" and v = start_red and n' = all_open
      and d = "Obj [(''x'', Num 10), (''y'', Num 10), (''color'', Str ''#FF0000''), (''width'', Num 3)]"
      and px = "Num 10" and py = "Num 10" and color = "Str ''#FF0000''" and width = "Num 3"
      and e = env0 and userColor = "Str ''#FF6B6B''"]
  by (simp add: start_red_def envelope_def env0_def two_users_def socket1_closed_def map_get_def
      open_clients_def gone_def map_delete_def)

section \<open>The snapshot at connection time\<close>

lemma map_keys_map_set:
  "map_keys (map_set m k v) = (if k \<in> set (map_keys m) then map_keys m else map_keys m @ [k])"
  by (induction m k v rule: map_set.induct) (auto simp: map_keys_def)

lemma set_map_set: "set (map_set m k v) \<subseteq> insert (k, v) (set m)"
  by (induction m k v rule: map_set.induct) auto

lemma map_set_fresh: "k \<notin> set (map_keys m) \<Longrightarrow> map_set m k v = m @ [(k, v)]"
  by (induction m k v rule: map_set.induct) (auto simp: map_keys_def)

lemma users_ok_map_set:
  assumes "users_ok m" and "user_id v = k"
  shows "users_ok (map_set m k v)"
proof -
  have "distinct (map_keys (map_set m k v))"
    using assms(1) by (simp add: users_ok_def map_keys_map_set)
  moreover have "list_all (\<lambda>entry. user_id (snd entry) = fst entry) (map_set m k v)"
    using assms set_map_set [of m k v] by (auto simp: users_ok_def list_all_iff)
  ultimately show ?thesis by (simp add: users_ok_def)
qed

lemma users_ok_map_delete: "users_ok m \<Longrightarrow> users_ok (map_delete m k)"
  by (auto simp: users_ok_def map_delete_def map_keys_def list_all_iff distinct_map_filter)

lemma map_get_user_id:
  assumes "users_ok m" and "map_get m k = Some v"
  shows "user_id v = k"
proof -
  from assms(2) have "(k, v) \<in> set m"
    by (simp add: map_get_def map_of_SomeD)
  with assms(1) show ?thesis
    by (auto simp: users_ok_def list_all_iff)
qed

lemma cursor_move_users_ok:
  assumes "users_ok (users st)" and "cursor_move n w u d st = Inr r"
  shows "users_ok (users (fst r))"
proof (cases u)
  case None
  with assms show ?thesis by (auto simp: cursor_move_def)
next
  case (Some k)
  show ?thesis
  proof (cases "map_get (users st) k")
    case None
    with Some assms show ?thesis by (auto simp: cursor_move_def)
  next
    case found: (Some cursorUser)
    then have "user_id cursorUser = k"
      using assms(1) map_get_user_id by blast
    then have "\<And>p. users_ok (map_set (users st) k (cursorUser\<lparr>user_cursor := p\<rparr>))"
      using assms(1) by (intro users_ok_map_set) simp_all
    with Some found assms(2) show ?thesis
      by (auto simp: cursor_move_def and_then_def split: sum.splits)
  qed
qed

lemma draw_start_users: "draw_start n e c u d st = Inr r \<Longrightarrow> users (fst r) = users st"
  by (auto simp: draw_start_def and_then_def Let_def split: sum.splits)

lemma draw_continue_users: "draw_continue n u d st = Inr r \<Longrightarrow> users (fst r) = users st"
  by (auto simp: draw_continue_def and_then_def split: sum.splits option.splits)

lemma handle_users_ok:
  assumes "users_ok (users st)" and "handle n e w userColor parsed st = Inr r"
  shows "users_ok (users (fst r))"
proof -
  from assms(2) obtain v t d where v: "parsed = Inr v" "get_prop v ''type'' = Inr t"
    "get_prop v ''data'' = Inr d"
    by (auto simp: handle_def and_then_def split: sum.splits)
  let ?u = "map_get (connectedClients st) w"
  note h = assms(2) [unfolded v(1) handle_dispatch [OF v(2,3)] Let_def]
  consider "t = Str ''draw-start''" | "t = Str ''draw-continue''" | "t = Str ''draw-end''"
    | "t = Str ''cursor-move''" | "t = Str ''clear-canvas''" | "t = Str ''chat-message''"
    | "t = Str ''user-typing''" | "t \<notin> Str ` set message_types"
    by (auto simp: message_types_def)
  then show ?thesis
  proof cases
    case 1
    with h have "draw_start n e userColor ?u d st = Inr r" by simp
    then show ?thesis using draw_start_users assms(1) by simp
  next
    case 2
    with h have "draw_continue n ?u d st = Inr r" by simp
    then show ?thesis using draw_continue_users assms(1) by simp
  next
    case 3
    with h have "draw_end n d st = Inr r" by simp
    then show ?thesis using draw_end_state assms(1) by simp
  next
    case 4
    with h have "cursor_move n w ?u d st = Inr r" by simp
    then show ?thesis using cursor_move_users_ok assms(1) by blast
  next
    case 5
    with h assms(1) show ?thesis by (auto simp: clear_canvas_def)
  next
    case 6
    with h have "chat_message n e ?u d st = Inr r" by simp
    then show ?thesis using chat_message_state assms(1) by simp
  next
    case 7
    with h have "user_typing n w ?u d st = Inr r" by simp
    then show ?thesis using user_typing_state assms(1) by simp
  next
    case 8
    with h assms(1) show ?thesis by (auto simp: message_types_def)
  qed
qed

lemma step_users_ok:
  assumes "users_ok (users st)"
  shows "users_ok (users (fst (step ev st)))"
proof (cases ev)
  case (Connection n w connectionId userId random)
  then show ?thesis
    using assms by (simp add: on_connection_def Let_def users_ok_map_set)
next
  case (Message n e w userColor parsed)
  show ?thesis
  proof (cases "handle n e w userColor parsed st")
    case (Inl err)
    with Message assms show ?thesis by (simp add: on_message_def)
  next
    case (Inr r)
    with Message handle_users_ok [OF assms Inr] show ?thesis by (simp add: on_message_def)
  qed
next
  case (Close n w connectionId)
  then show ?thesis
    using assms by (simp add: on_close_def users_ok_map_delete split: option.splits)
qed

lemma run_users_ok:
  "users_ok (users st) \<Longrightarrow> users_ok (users (run evs st))"
  by (induction evs arbitrary: st) (simp_all add: step_users_ok)

lemma rebuild_users:
  assumes "distinct (map_keys m)" and "list_all (\<lambda>entry. user_id (snd entry) = fst entry) m"
    and "set (map_keys acc) \<inter> set (map_keys m) = {}"
  shows "fold (\<lambda>user m. map_set m (user_id user) user) (map_values m) acc = acc @ m"
  using assms
proof (induction m arbitrary: acc)
  case Nil
  then show ?case by (simp add: map_values_def)
next
  case (Cons entry m)
  obtain k v where entry: "entry = (k, v)" by (cases entry)
  with Cons.prems have kv: "user_id v = k" and fresh: "k \<notin> set (map_keys acc)"
    by (auto simp: map_keys_def)
  have "set (map_keys (acc @ [(k, v)])) \<inter> set (map_keys m) = {}"
    using Cons.prems entry by (auto simp: map_keys_def)
  moreover have "distinct (map_keys m)"
    and "list_all (\<lambda>entry. user_id (snd entry) = fst entry) m"
    using Cons.prems by (simp_all add: map_keys_def)
  ultimately have "fold (\<lambda>user m. map_set m (user_id user) user) (map_values m) (acc @ [(k, v)])
      = (acc @ [(k, v)]) @ m"
    by (intro Cons.IH)
  then show ?case
    using entry kv fresh by (simp add: map_values_def map_set_fresh)
qed

text \<open>
  Claim C5. After any sequence of events (connections, frames of every kind,
  disconnections) from the initial state, the first frame that a newly accepted, open
  socket is sent is \<^verbatim>\<open>canvas-state\<close>, carrying the strokes and the values of
  \<^verbatim>\<open>users\<close> as they are once the new session is registered: the strokes are those
  before the connection, and the registry holds the new session. The client's
  \<^verbatim>\<open>handleCanvasState\<close>, whatever its mirror held, then holds exactly these strokes and
  exactly this registry. The frames are compared as values, before serialisation.
\<close>

theorem snapshot_complete:
  assumes "readyState n w = OPEN"
    and "on_connection n w connectionId userId random (run evs initial_state) = (st', out, lg)"
  shows "(let userInfo = \<lparr>user_id = userId, user_socketId = connectionId,
                           user_color = generateUserColor random,
                           user_cursor = \<lparr>pt_x = Num 0, pt_y = Num 0\<rparr>\<rparr>
          in out = (w, CanvasState (strokes st') (map_values (users st')))
                   # (w, UserInfo userInfo) # broadcast n (UserJoined userInfo) (Some w)
           \<and> strokes st' = strokes (run evs initial_state)
           \<and> map_get (users st') userId = Some userInfo
           \<and> handleCanvasState (strokes st', map_values (users st')) c
                = c\<lparr>canvasStrokes := strokes st', connectedUsers := users st'\<rparr>)"
proof -
  let ?st = "run evs initial_state"
  let ?info = "\<lparr>user_id = userId, user_socketId = connectionId,
                    user_color = generateUserColor random,
                    user_cursor = \<lparr>pt_x = Num 0, pt_y = Num 0\<rparr>\<rparr>"
  have st': "st' = ?st\<lparr>users := map_set (users ?st) userId ?info,
                       connectedClients := map_set (connectedClients ?st) w userId\<rparr>"
    using assms(2) by (auto simp: on_connection_def Let_def)
  have out: "out = (w, CanvasState (strokes st') (map_values (users st')))
               # (w, UserInfo ?info) # broadcast n (UserJoined ?info) (Some w)"
    using assms by (auto simp: on_connection_def Let_def sendToClient_def)
  have "users_ok (users initial_state)"
    by (simp add: initial_state_def users_ok_def map_keys_def)
  then have "users_ok (users ?st)" by (rule run_users_ok)
  then have ok: "users_ok (users st')"
    by (simp add: st' users_ok_map_set)
  then have "fold (\<lambda>user m. map_set m (user_id user) user) (map_values (users st')) []
      = [] @ users st'"
    by (intro rebuild_users) (simp_all add: users_ok_def map_keys_def)
  then have mirror: "handleCanvasState (strokes st', map_values (users st')) c
            = c\<lparr>canvasStrokes := strokes st', connectedUsers := users st'\<rparr>"
    by (simp add: handleCanvasState_def)
  show ?thesis
    using out mirror by (simp add: st' map_get_map_set_same Let_def)
qed

text \<open>
  After the first session's connection and first stroke, a second socket connects; a
  client whose mirror held other strokes and another user takes the snapshot.
\<close>

theorem snapshot_complete_witness:
  "on_connection all_open 2 ''c2'' ''u2'' (1 / 10) (run history initial_state)
     = (two_users,
        [(2, CanvasState [stroke1] [alice, bob]), (2, UserInfo bob), (1, UserJoined bob)],
        [UserConnected ''c2''])
   \<and> handleCanvasState ([stroke1], [alice, bob])
        ((new_client None)\<lparr>canvasStrokes := [stroke1, stroke1], connectedUsers := [(''u9'', bob)]\<rparr>)
     = (new_client None)\<lparr>canvasStrokes := [stroke1],
                           connectedUsers := [(''u1'', alice), (''u2'', bob)]\<rparr>"
proof -
  let ?c = "(new_client None)\<lparr>canvasStrokes := [stroke1, stroke1],
                               connectedUsers := [(''u9'', bob)]\<rparr>"
  have ready: "readyState all_open 2 = OPEN"
    by (simp add: all_open_def)
  have before: "run history initial_state
      = \<lparr>strokes = [stroke1], users = [(''u1'', alice)], connectedClients = [(1, ''u1'')]\<rparr>"
    by (simp add: history_def initial_state_def on_connection_def on_message_def handle_def
        and_then_def draw_start_def js_or_def generateUserColor_def colors_def map_get_def
        start_red_def envelope_def stroke1_def alice_def Let_def)
  have conn: "on_connection all_open 2 ''c2'' ''u2'' (1 / 10) (run history initial_state)
     = (two_users,
        [(2, CanvasState [stroke1] [alice, bob]), (2, UserInfo bob), (1, UserJoined bob)],
        [UserConnected ''c2''])"
    by (simp add: before on_connection_def generateUserColor_def colors_def sendToClient_def
        broadcast_def map_values_def all_open_def two_users_def bob_def Let_def)
  from snapshot_complete [OF ready conn, of ?c, unfolded Let_def]
  have "handleCanvasState (strokes two_users, map_values (users two_users)) ?c
      = ?c\<lparr>canvasStrokes := strokes two_users, connectedUsers := users two_users\<rparr>"
    by blast
  then have "handleCanvasState ([stroke1], [alice, bob]) ?c
      = (new_client None)\<lparr>canvasStrokes := [stroke1],
                           connectedUsers := [(''u1'', alice), (''u2'', bob)]\<rparr>"
    by (simp add: two_users_def map_values_def)
  with conn show ?thesis by simp
qed

section \<open>Reconnection\<close>

lemma showConnectionError_attempts:
  "reconnectAttempts (showConnectionError c) = reconnectAttempts c"
  "maxReconnectAttempts (showConnectionError c) = maxReconnectAttempts c"
  "reconnectDelay (showConnectionError c) = reconnectDelay c"
  by (simp_all add: showConnectionError_def split: option.splits)

lemma showConnectionError_twice:
  "showConnectionError (showConnectionError c) = showConnectionError c"
  by (simp add: showConnectionError_def split: option.splits)

lemma onclose_below:
  assumes "reconnectAttempts c < maxReconnectAttempts c"
  shows "onclose c = (c\<lparr>reconnectAttempts := reconnectAttempts c + 1\<rparr>,
           [UpdateConnectionStatus False,
            SetTimeout_connectWebSocket (reconnectDelay c * 2 ^ reconnectAttempts c)])"
  using assms by (simp add: onclose_def attemptReconnect_def Let_def)

lemma onclose_at_cap:
  assumes "\<not> reconnectAttempts c < maxReconnectAttempts c"
  shows "onclose c = (showConnectionError c, [UpdateConnectionStatus False])"
  using assms by (simp add: onclose_def attemptReconnect_def)

lemma onclose_capped:
  "onclose ((new_client el)\<lparr>reconnectAttempts := 10\<rparr>)
     = (exhausted el, [UpdateConnectionStatus False])"
  by (simp add: onclose_at_cap new_client_def exhausted_def)

lemma onclose_exhausted:
  "onclose (exhausted el) = (exhausted el, [UpdateConnectionStatus False])"
  by (simp add: onclose_at_cap exhausted_def showConnectionError_attempts
      showConnectionError_twice new_client_def)

lemma failures_Suc_state:
  "fst (failures (Suc k) c) = fst (onclose (fst (failures k c)))"
  by (simp add: split_beta)

lemma failures_state:
  "fst (failures k (new_client el)) =
     (if k \<le> 10 then (new_client el)\<lparr>reconnectAttempts := k\<rparr> else exhausted el)"
proof (induction k)
  case 0
  then show ?case by (simp add: new_client_def)
next
  case (Suc k)
  note step = failures_Suc_state [of k "new_client el"]
  consider "k < 10" | "k = 10" | "10 < k" by linarith
  then show ?case
  proof cases
    case 1
    then have "onclose ((new_client el)\<lparr>reconnectAttempts := k\<rparr>)
        = ((new_client el)\<lparr>reconnectAttempts := Suc k\<rparr>,
           [UpdateConnectionStatus False, SetTimeout_connectWebSocket (1000 * 2 ^ k)])"
      by (simp add: onclose_below new_client_def)
    moreover from Suc 1 have "fst (failures k (new_client el))
        = (new_client el)\<lparr>reconnectAttempts := k\<rparr>"
      by simp
    ultimately have "fst (failures (Suc k) (new_client el))
        = (new_client el)\<lparr>reconnectAttempts := Suc k\<rparr>"
      using step by simp
    moreover from 1 have "Suc k \<le> 10" by simp
    ultimately show ?thesis by (simp only: if_True)
  next
    case 2
    then have "onclose ((new_client el)\<lparr>reconnectAttempts := k\<rparr>)
        = (exhausted el, [UpdateConnectionStatus False])"
      by (simp add: onclose_at_cap new_client_def exhausted_def)
    moreover from Suc 2 have "fst (failures k (new_client el))
        = (new_client el)\<lparr>reconnectAttempts := k\<rparr>"
      by simp
    ultimately have "fst (failures (Suc k) (new_client el)) = exhausted el"
      using step by simp
    moreover from 2 have "\<not> Suc k \<le> 10" by simp
    ultimately show ?thesis by (simp only: if_False)
  next
    case 3
    have "onclose (exhausted el) = (exhausted el, [UpdateConnectionStatus False])"
      by (simp add: onclose_at_cap exhausted_def showConnectionError_attempts
          showConnectionError_twice new_client_def)
    moreover from Suc 3 have "fst (failures k (new_client el)) = exhausted el"
      by simp
    ultimately have "fst (failures (Suc k) (new_client el)) = exhausted el"
      using step by simp
    moreover from 3 have "\<not> Suc k \<le> 10" by simp
    ultimately show ?thesis by (simp only: if_False)
  qed
qed

text \<open>
  Claim C7. Starting from the constructor's values (no attempts, at most 10, base delay
  1000 ms): the \<open>k\<close>-th failure in a row, for \<open>k\<close> from 1 to 10, sets the counter to
  \<open>k\<close> and sets a timer of \<open>1000 * 2 ^ (k - 1)\<close> ms for the next connection; every
  later failure sets no timer, leaves the counter at 10 and shows the error element
  (when the page has one) with its message; the counter never exceeds 10; an opened
  connection sets the counter to 0. The two branches of \<^verbatim>\<open>attemptReconnect\<close> are also
  given for any client object with these two constants.
\<close>

theorem reconnect_backoff:
  "(1 \<le> k \<and> k \<le> 10 \<longrightarrow>
      onclose (fst (failures (k - 1) (new_client el)))
        = ((new_client el)\<lparr>reconnectAttempts := k\<rparr>,
           [UpdateConnectionStatus False, SetTimeout_connectWebSocket (1000 * 2 ^ (k - 1))]))
   \<and> (10 < k \<longrightarrow>
      onclose (fst (failures (k - 1) (new_client el)))
        = (exhausted el, [UpdateConnectionStatus False])
      \<and> reconnectAttempts (exhausted el) = 10
      \<and> connection_error (exhausted el)
          = map_option (\<lambda>errorElement. errorElement\<lparr>style_display := ''block'',
               textContent := ''Unable to connect to server. Please refresh the page.''\<rparr>) el)
   \<and> reconnectAttempts (fst (failures k (new_client el))) \<le> 10
   \<and> reconnectAttempts (fst (onopen c)) = 0
   \<and> (maxReconnectAttempts c = 10 \<and> reconnectDelay c = 1000 \<longrightarrow>
        (reconnectAttempts c < 10 \<longrightarrow>
           attemptReconnect c = (c\<lparr>reconnectAttempts := reconnectAttempts c + 1\<rparr>,
              [SetTimeout_connectWebSocket (1000 * 2 ^ (reconnectAttempts c + 1 - 1))]))
        \<and> (10 \<le> reconnectAttempts c \<longrightarrow>
           attemptReconnect c = (showConnectionError c, [])))"
proof (intro conjI impI)
  assume k: "1 \<le> k \<and> k \<le> 10"
  then have "k - 1 \<le> 10" by linarith
  then have "fst (failures (k - 1) (new_client el)) = (new_client el)\<lparr>reconnectAttempts := k - 1\<rparr>"
    by (simp only: failures_state if_True)
  moreover have "reconnectAttempts ((new_client el)\<lparr>reconnectAttempts := k - 1\<rparr>)
        < maxReconnectAttempts ((new_client el)\<lparr>reconnectAttempts := k - 1\<rparr>)"
    using k by (cases k) (simp_all add: new_client_def)
  from onclose_below [OF this]
  have "onclose ((new_client el)\<lparr>reconnectAttempts := k - 1\<rparr>)
        = ((new_client el)\<lparr>reconnectAttempts := k\<rparr>,
           [UpdateConnectionStatus False, SetTimeout_connectWebSocket (1000 * 2 ^ (k - 1))])"
    using k by (cases k) (simp_all add: new_client_def)
  ultimately show "onclose (fst (failures (k - 1) (new_client el)))
        = ((new_client el)\<lparr>reconnectAttempts := k\<rparr>,
           [UpdateConnectionStatus False, SetTimeout_connectWebSocket (1000 * 2 ^ (k - 1))])"
    by simp
next
  assume k: "10 < k"
  have st: "fst (failures (k - 1) (new_client el)) =
      (if k = 11 then (new_client el)\<lparr>reconnectAttempts := 10\<rparr> else exhausted el)"
    using k by (auto simp: failures_state)
  show "onclose (fst (failures (k - 1) (new_client el)))
        = (exhausted el, [UpdateConnectionStatus False])"
    using st onclose_capped [of el] onclose_exhausted [of el] by metis
next
  show "reconnectAttempts (exhausted el) = 10"
    by (simp add: exhausted_def showConnectionError_attempts)
next
  show "connection_error (exhausted el)
          = map_option (\<lambda>errorElement. errorElement\<lparr>style_display := ''block'',
               textContent := ''Unable to connect to server. Please refresh the page.''\<rparr>) el"
    by (cases el) (simp_all add: exhausted_def showConnectionError_def new_client_def)
next
  show "reconnectAttempts (fst (failures k (new_client el))) \<le> 10"
    by (simp add: failures_state exhausted_def showConnectionError_attempts)
next
  show "reconnectAttempts (fst (onopen c)) = 0"
    by (simp add: onopen_def)
next
  assume "maxReconnectAttempts c = 10 \<and> reconnectDelay c = 1000" "reconnectAttempts c < 10"
  then show "attemptReconnect c = (c\<lparr>reconnectAttempts := reconnectAttempts c + 1\<rparr>,
              [SetTimeout_connectWebSocket (1000 * 2 ^ (reconnectAttempts c + 1 - 1))])"
    by (simp add: attemptReconnect_def Let_def)
next
  assume "maxReconnectAttempts c = 10 \<and> reconnectDelay c = 1000" "10 \<le> reconnectAttempts c"
  then show "attemptReconnect c = (showConnectionError c, [])"
    by (simp add: attemptReconnect_def)
qed

text \<open>The third failure waits 4000 ms; the eleventh shows the error.\<close>

theorem reconnect_backoff_witness:
  "onclose (fst (failures 2 (new_client (Some hidden))))
     = ((new_client (Some hidden))\<lparr>reconnectAttempts := 3\<rparr>,
        [UpdateConnectionStatus False, SetTimeout_connectWebSocket 4000])
   \<and> onclose (fst (failures 10 (new_client (Some hidden))))
     = ((new_client (Some hidden))\<lparr>reconnectAttempts := 10,
           connection_error := Some \<lparr>style_display = ''block'',
             textContent = ''Unable to connect to server. Please refresh the page.''\<rparr>\<rparr>,
        [UpdateConnectionStatus False])"
  using reconnect_backoff [where k = 3 and el = "Some hidden"]
    reconnect_backoff [where k = 11 and el = "Some hidden"]
  by (simp add: exhausted_def showConnectionError_def new_client_def hidden_def)

end
